theory Spec2Isabelle
  imports Main
begin

section \<open>JavaScript strings\<close>

text \<open>
  Strings are character lists. Case conversion is modelled on the ASCII letters, which is
  where the source's tables, keywords and extensions live.
\<close>

definition lowerChar :: "char \<Rightarrow> char" where
  "lowerChar c =
     (let n = (of_char c :: nat) in if 65 \<le> n \<and> n \<le> 90 then char_of (n + 32) else c)"

definition upperChar :: "char \<Rightarrow> char" where
  "upperChar c =
     (let n = (of_char c :: nat) in if 97 \<le> n \<and> n \<le> 122 then char_of (n - 32) else c)"

definition toLowerCase :: "string \<Rightarrow> string" where
  "toLowerCase s = map lowerChar s"

definition toUpperCase :: "string \<Rightarrow> string" where
  "toUpperCase s = map upperChar s"

definition startsWith :: "string \<Rightarrow> string \<Rightarrow> bool" where
  "startsWith s p = (take (length p) s = p)"

text \<open>\<open>s.includes(k)\<close>: \<open>k\<close> occurs in \<open>s\<close> as a contiguous substring.\<close>

fun strIncludes :: "string \<Rightarrow> string \<Rightarrow> bool" where
  "strIncludes [] k = (k = [])"
| "strIncludes (c # cs) k = (startsWith (c # cs) k \<or> strIncludes cs k)"

section \<open>Shared files audit: security risk score\<close>

text \<open>The fields of the record built by \<open>extractSharedFileData\<close>.\<close>

record shared_file_data =
  sfName :: string
  sfType :: string
  sfSize :: int
  sfOwner :: string
  sfUrl :: string
  sfDescription :: string
  sfFolderPath :: string
  sfSharingAccess :: string
  sfSharingPermission :: string
  sfViewers :: "string list"
  sfEditors :: "string list"
  sfExternalDomains :: "string list"
  sfIsPublic :: bool
  sfIsDomainShared :: bool

definition HIGH_RISK_KEYWORDS :: "string list" where
  "HIGH_RISK_KEYWORDS =
     [''confidential'', ''secret'', ''private'', ''internal'', ''restricted'',
      ''salary'', ''budget'', ''financial'', ''contract'', ''agreement'',
      ''password'', ''credential'', ''api'', ''key'', ''token'',
      ''personal'', ''ssn'', ''social security'', ''bank'', ''account'']"

definition sensitiveTypes :: "string list" where
  "sensitiveTypes = [''pdf'', ''doc'', ''docx'', ''xls'', ''xlsx'', ''csv'']"

text \<open>The first \<open>if\<close> chain of \<open>assessSecurityRisk\<close>: points for the sharing exposure.\<close>

definition accessRisk :: "shared_file_data \<Rightarrow> int" where
  "accessRisk fd =
     (if sfIsPublic fd then 40
      else if sfIsDomainShared fd then 20
      else if length (sfExternalDomains fd) > 0 then 25
      else 0)"

text \<open>The second \<open>if\<close> chain: points for the permission level.\<close>

definition permissionRisk :: "shared_file_data \<Rightarrow> int" where
  "permissionRisk fd =
     (if sfSharingPermission fd = ''EDIT'' \<and> sfIsPublic fd then 20
      else if sfSharingPermission fd = ''EDIT'' then 10
      else 0)"

text \<open>
  The \<open>forEach\<close> over the keyword list: it adds 5 to the running score \<open>r\<close> for every
  keyword found in the lower-cased name or description.
\<close>

definition keywordStep :: "string \<Rightarrow> string \<Rightarrow> int \<Rightarrow> string \<Rightarrow> int" where
  "keywordStep fileName description acc keyword =
     (if strIncludes fileName keyword \<or> strIncludes description keyword then acc + 5 else acc)"

definition keywordLoop :: "string \<Rightarrow> string \<Rightarrow> int \<Rightarrow> int" where
  "keywordLoop fileName description r = foldl (keywordStep fileName description) r HIGH_RISK_KEYWORDS"

definition typeRisk :: "shared_file_data \<Rightarrow> int" where
  "typeRisk fd = (if toLowerCase (sfType fd) \<in> set sensitiveTypes then 10 else 0)"

definition externalUsersRisk :: "shared_file_data \<Rightarrow> int" where
  "externalUsersRisk fd =
     (if length (sfExternalDomains fd) > 5 then 15
      else if length (sfExternalDomains fd) > 2 then 10
      else if length (sfExternalDomains fd) > 0 then 5
      else 0)"

text \<open>
  \<open>assessSecurityRisk\<close>, statement by statement. The single accumulator \<open>riskScore\<close> of
  the source is the chain \<open>r1 \<dots> r6\<close>; \<open>r4\<close> is the statement
  \<open>riskScore = Math.min(riskScore, 25)\<close>, applied to the whole accumulator.
\<close>

definition assessSecurityRisk :: "shared_file_data \<Rightarrow> int" where
  "assessSecurityRisk fd =
     (let r1 = 0 + accessRisk fd;
          r2 = r1 + permissionRisk fd;
          fileName = toLowerCase (sfName fd);
          description = toLowerCase (sfDescription fd);
          r3 = keywordLoop fileName description r2;
          r4 = min r3 25;
          r5 = r4 + typeRisk fd;
          r6 = r5 + externalUsersRisk fd
      in min r6 100)"

text \<open>The keywords of the list that the lower-cased name or description contains.\<close>

definition matchedKeywords :: "string \<Rightarrow> string \<Rightarrow> string list" where
  "matchedKeywords fileName description =
     filter (\<lambda>keyword. strIncludes fileName keyword \<or> strIncludes description keyword)
            HIGH_RISK_KEYWORDS"

section \<open>Shared files audit: per-file aggregation\<close>

text \<open>
  \<open>arr.sort((a, b) => key(b) - key(a))\<close>: a stable sort, descending by the key.
\<close>

definition sortDescBy :: "('a \<Rightarrow> int) \<Rightarrow> 'a list \<Rightarrow> 'a list" where
  "sortDescBy key xs = sort_key (\<lambda>x. - key x) xs"

text \<open>
  \<open>counts[key] || 0\<close> and \<open>counts[key] = (counts[key] || 0) + 1\<close> on an object used
  as a table of counters (\<open>None\<close>: the key is absent). The keys are type labels, owners,
  folder paths and years; the table is taken on keys that are not names of members of
  \<open>Object.prototype\<close>.
\<close>

definition countOf :: "('key \<Rightarrow> nat option) \<Rightarrow> 'key \<Rightarrow> nat" where
  "countOf counts key = (case counts key of Some n \<Rightarrow> n | None \<Rightarrow> 0)"

definition incr :: "('key \<Rightarrow> nat option) \<Rightarrow> 'key \<Rightarrow> 'key \<Rightarrow> nat option" where
  "incr counts key = counts(key := Some (countOf counts key + 1))"

text \<open>An entry of \<open>stats.highRiskFiles\<close> (the fields that are data of the file).\<close>

record high_risk_entry =
  hrName :: string
  hrType :: string
  hrSize :: int
  hrOwner :: string
  hrSharingAccess :: string
  hrSharingPermission :: string
  hrPath :: string
  hrUrl :: string
  hrRiskScore :: int
  hrExternalDomains :: "string list"
  hrViewerCount :: nat
  hrEditorCount :: nat

record shared_stats =
  ssTotalFiles :: nat
  ssTotalSize :: int
  ssByAccessLevel :: "string \<rightharpoonup> nat"
  ssByPermission :: "string \<rightharpoonup> nat"
  ssByOwner :: "string \<rightharpoonup> nat"
  ssByFileType :: "string \<rightharpoonup> nat"
  ssPublicFiles :: nat
  ssDomainSharedFiles :: nat
  ssExternallySharedFiles :: nat
  ssInternallySharedFiles :: nat
  ssHighRiskFiles :: "high_risk_entry list"
  ssExternalDomains :: "string \<rightharpoonup> nat"
  ssErrors :: nat

text \<open>
  \<open>initializeSharedFilesStats\<close> on the parsed property: \<open>None\<close> is the object \<open>{}\<close>
  parsed when nothing is stored, where every \<open>stats.x || default\<close> takes the default;
  on a stored object every field is kept.
\<close>

definition initializeSharedFilesStats :: "shared_stats option \<Rightarrow> shared_stats" where
  "initializeSharedFilesStats stored =
     (case stored of
        None \<Rightarrow> \<lparr> ssTotalFiles = 0, ssTotalSize = 0, ssByAccessLevel = Map.empty,
                  ssByPermission = Map.empty, ssByOwner = Map.empty, ssByFileType = Map.empty,
                  ssPublicFiles = 0, ssDomainSharedFiles = 0, ssExternallySharedFiles = 0,
                  ssInternallySharedFiles = 0, ssHighRiskFiles = [],
                  ssExternalDomains = Map.empty, ssErrors = 0 \<rparr>
      | Some st \<Rightarrow> st)"

definition categorizeSharing :: "shared_file_data \<Rightarrow> shared_stats \<Rightarrow> shared_stats" where
  "categorizeSharing fd st =
     (if sfIsPublic fd then st\<lparr>ssPublicFiles := ssPublicFiles st + 1\<rparr>
      else if sfIsDomainShared fd then st\<lparr>ssDomainSharedFiles := ssDomainSharedFiles st + 1\<rparr>
      else if length (sfExternalDomains fd) > 0
        then st\<lparr>ssExternallySharedFiles := ssExternallySharedFiles st + 1\<rparr>
      else st\<lparr>ssInternallySharedFiles := ssInternallySharedFiles st + 1\<rparr>)"

definition highRiskEntry :: "shared_file_data \<Rightarrow> int \<Rightarrow> high_risk_entry" where
  "highRiskEntry fd riskLevel =
     \<lparr> hrName = sfName fd, hrType = sfType fd, hrSize = sfSize fd, hrOwner = sfOwner fd,
       hrSharingAccess = sfSharingAccess fd, hrSharingPermission = sfSharingPermission fd,
       hrPath = sfFolderPath fd, hrUrl = sfUrl fd, hrRiskScore = riskLevel,
       hrExternalDomains = sfExternalDomains fd,
       hrViewerCount = length (sfViewers fd), hrEditorCount = length (sfEditors fd) \<rparr>"

text \<open>The body of \<open>processSharedFile\<close> after the file's data has been extracted.\<close>

definition processSharedFile :: "shared_file_data \<Rightarrow> shared_stats \<Rightarrow> shared_stats" where
  "processSharedFile fd st0 =
     (let st1 = st0\<lparr>ssTotalFiles := ssTotalFiles st0 + 1,
                      ssTotalSize := ssTotalSize st0 + sfSize fd\<rparr>;
          st2 = st1\<lparr>ssByAccessLevel := incr (ssByAccessLevel st1) (sfSharingAccess fd)\<rparr>;
          st3 = st2\<lparr>ssByPermission := incr (ssByPermission st2) (sfSharingPermission fd)\<rparr>;
          st4 = st3\<lparr>ssByOwner := incr (ssByOwner st3) (sfOwner fd)\<rparr>;
          st5 = st4\<lparr>ssByFileType := incr (ssByFileType st4) (sfType fd)\<rparr>;
          st6 = categorizeSharing fd st5;
          riskLevel = assessSecurityRisk fd;
          st7 = (if riskLevel \<ge> 70
                 then st6\<lparr>ssHighRiskFiles :=
                          take 100 (sortDescBy hrRiskScore
                                      (ssHighRiskFiles st6 @ [highRiskEntry fd riskLevel]))\<rparr>
                 else st6)
      in st7\<lparr>ssExternalDomains := foldl incr (ssExternalDomains st7) (sfExternalDomains fd)\<rparr>)"

text \<open>A run of the audit over the extracted files, in listing order.\<close>

definition processSharedFiles :: "shared_file_data list \<Rightarrow> shared_stats \<Rightarrow> shared_stats" where
  "processSharedFiles fds st = foldl (\<lambda>s fd. processSharedFile fd s) st fds"

section \<open>Shared files audit: which records are scored\<close>






text \<open>\<open>[...new Set(xs)]\<close>: the elements of \<open>xs\<close> in the order of their first occurrence.\<close>

definition firstOccurrences :: "'a list \<Rightarrow> 'a list" where
  "firstOccurrences xs = foldl (\<lambda>seen x. if x \<in> set seen then seen else seen @ [x]) [] xs"



section \<open>Large files finder: cleanup score\<close>





section \<open>Concrete file records\<close>

text \<open>
  A PDF shared with anyone who has the link, with edit permission, whose name and
  description contain no keyword of the list.
\<close>

definition publicEditPdf :: shared_file_data where
  "publicEditPdf =
     \<lparr> sfName = ''report.pdf'', sfType = ''PDF'', sfSize = 2048, sfOwner = ''ann@example.org'',
       sfUrl = ''https://drive.example/1'', sfDescription = '''', sfFolderPath = ''Root'',
       sfSharingAccess = ''ANYONE_WITH_LINK'', sfSharingPermission = ''EDIT'',
       sfViewers = [], sfEditors = [], sfExternalDomains = [],
       sfIsPublic = True, sfIsDomainShared = False \<rparr>"




section \<open>File type detection\<close>

text \<open>
  What \<open>typeMap[extension]\<close> can evaluate to. \<open>typeMap\<close> is an object literal, so a key
  that is not one of its own properties is looked up on \<open>Object.prototype\<close>:
  \<open>typeMap['constructor']\<close> is the function \<open>Object\<close> and \<open>typeMap['__proto__']\<close> is
  \<open>Object.prototype\<close> itself. \<open>JInherited k\<close> stands for the member \<open>k\<close> found there.
\<close>

datatype js_value = JStr string | JInherited string

definition objectPrototypeKeys :: "string list" where
  "objectPrototypeKeys =
     [''constructor'', ''__defineGetter__'', ''__defineSetter__'', ''hasOwnProperty'',
      ''__lookupGetter__'', ''__lookupSetter__'', ''isPrototypeOf'', ''propertyIsEnumerable'',
      ''toString'', ''valueOf'', ''__proto__'', ''toLocaleString'']"

text \<open>\<open>obj[key]\<close> on an object literal with string values; \<open>None\<close> is \<open>undefined\<close>.\<close>

definition objectGet :: "(string \<times> string) list \<Rightarrow> string \<Rightarrow> js_value option" where
  "objectGet obj key =
     (case map_of obj key of
        Some v \<Rightarrow> Some (JStr v)
      | None \<Rightarrow> if key \<in> set objectPrototypeKeys then Some (JInherited key) else None)"

text \<open>\<open>fileName.split('.').pop()\<close>: the text after the last dot, the whole name without one.\<close>

definition lastSegment :: "string \<Rightarrow> string" where
  "lastSegment s = rev (takeWhile (\<lambda>c. c \<noteq> CHR ''.'') (rev s))"

definition googlePrefix :: string where
  "googlePrefix = ''application/vnd.google-apps.''"

definition typeMap :: "(string \<times> string) list" where
  "typeMap =
     [(''doc'', ''Word Document''), (''docx'', ''Word Document''),
      (''pdf'', ''PDF''), (''txt'', ''Text File''), (''rtf'', ''Rich Text''),
      (''xls'', ''Excel''), (''xlsx'', ''Excel''), (''csv'', ''CSV''),
      (''ppt'', ''PowerPoint''), (''pptx'', ''PowerPoint''),
      (''jpg'', ''Image''), (''jpeg'', ''Image''), (''png'', ''Image''),
      (''gif'', ''Image''), (''svg'', ''Image''), (''bmp'', ''Image''),
      (''mp4'', ''Video''), (''avi'', ''Video''), (''mov'', ''Video''),
      (''wmv'', ''Video''), (''flv'', ''Video''), (''mkv'', ''Video''),
      (''mp3'', ''Audio''), (''wav'', ''Audio''), (''flac'', ''Audio''),
      (''zip'', ''Archive''), (''rar'', ''Archive''), (''7z'', ''Archive''),
      (''js'', ''Code''), (''html'', ''Code''), (''css'', ''Code''),
      (''py'', ''Code''), (''java'', ''Code''), (''cpp'', ''Code'')]"

definition typeMapSimple :: "(string \<times> string) list" where
  "typeMapSimple =
     [(''pdf'', ''PDF''), (''doc'', ''Word''), (''docx'', ''Word''), (''txt'', ''Text''),
      (''xls'', ''Excel''), (''xlsx'', ''Excel''), (''csv'', ''CSV''),
      (''ppt'', ''PowerPoint''), (''pptx'', ''PowerPoint''),
      (''jpg'', ''Image''), (''jpeg'', ''Image''), (''png'', ''Image''), (''gif'', ''Image''),
      (''mp4'', ''Video''), (''avi'', ''Video''), (''mov'', ''Video''),
      (''mp3'', ''Audio''), (''wav'', ''Audio''),
      (''zip'', ''Archive''), (''rar'', ''Archive'')]"

text \<open>
  The body shared by \<open>getFileType\<close> and \<open>getFileTypeSimple\<close>, which differ in the table
  only. In the first branch \<open>mimeType\<close> starts with the prefix, so
  \<open>mimeType.replace(prefix, '')\<close> removes it from the front. In the last line
  \<open>a || b || c\<close> takes the first truthy operand: a table entry or an inherited member
  is truthy, a string is truthy when it is not empty.
\<close>

definition fileTypeWith :: "(string \<times> string) list \<Rightarrow> string \<Rightarrow> string \<Rightarrow> js_value" where
  "fileTypeWith table fileName mimeType =
     (if startsWith mimeType googlePrefix
      then (let googleType = drop (length googlePrefix) mimeType
            in JStr (''Google '' @ toUpperCase (take 1 googleType) @ drop 1 googleType))
      else (let extension = toLowerCase (lastSegment fileName)
            in case objectGet table extension of
                 Some v \<Rightarrow> v
               | None \<Rightarrow> if toUpperCase extension \<noteq> [] then JStr (toUpperCase extension)
                         else JStr ''Unknown''))"

definition getFileType :: "string \<Rightarrow> string \<Rightarrow> js_value" where
  "getFileType fileName mimeType = fileTypeWith typeMap fileName mimeType"

definition getFileTypeSimple :: "string \<Rightarrow> string \<Rightarrow> js_value" where
  "getFileTypeSimple fileName mimeType = fileTypeWith typeMapSimple fileName mimeType"

section \<open>Complete inventory: statistics and per-file processing\<close>

text \<open>An uncaught JavaScript exception.\<close>

datatype js_error = HostError | TypeError | QuotaExceeded

text \<open>
  The record built by \<open>extractFileData\<close> (the fields that the statistics read).
  \<open>fdLastModified\<close> is the instant of the ISO string, in milliseconds since the epoch.
\<close>

record file_data =
  fdName :: string
  fdType :: string
  fdSize :: int
  fdLastModified :: int
  fdOwner :: string
  fdUrl :: string
  fdFolderPath :: string
  fdSharingAccess :: string
  fdSharingPermission :: string

text \<open>
  A file handle as the host presents it while it is processed: \<open>hfData\<close> is what
  \<open>extractFileData\<close> returns, \<open>None\<close> when one of its getters throws; \<open>hfTrashed\<close> is
  \<open>file.isTrashed()\<close>; \<open>hfNow\<close> is the clock read by \<open>new Date()\<close> during processing,
  in milliseconds; \<open>hfRowRejected\<close> says that \<open>sheet.appendRow\<close> throws for the file's row;
  \<open>hfNameThrows\<close> says that \<open>file.getName()\<close> throws when a \<open>catch\<close> handler calls it for
  its message; \<open>hfProgressRejected\<close> says that the progress sheet refuses the write of
  \<open>updateStatsInSheet\<close> made after the file.
\<close>

record host_file =
  hfData :: "file_data option"
  hfTrashed :: bool
  hfNow :: int
  hfRowRejected :: bool
  hfNameThrows :: bool
  hfProgressRejected :: bool

record large_entry =
  leName :: string
  leSize :: int
  lePath :: string
  leUrl :: string

record old_entry =
  oeName :: string
  oeLastModified :: int
  oeAgeInDays :: int
  oePath :: string
  oeUrl :: string

record shared_entry =
  seName :: string
  seSharingAccess :: string
  seSharingPermission :: string
  sePath :: string
  seUrl :: string

record dup_entry =
  deName :: string
  dePath :: string
  deSize :: int
  deLastModified :: int
  deUrl :: string

text \<open>
  The statistics object. The counters are objects used as maps; \<open>duplicateCandidates\<close> is
  kept as a list of its entries in insertion order, which is the order of
  \<open>Object.entries\<close> for its keys (none of them is an array index).
\<close>

record inventory_stats =
  totalFiles :: nat
  totalSize :: int
  filesByType :: "string \<rightharpoonup> nat"
  filesByFolder :: "string \<rightharpoonup> nat"
  filesByOwner :: "string \<rightharpoonup> nat"
  filesByYear :: "int \<rightharpoonup> nat"
  largeFiles :: "large_entry list"
  oldFiles :: "old_entry list"
  sharedFiles :: "shared_entry list"
  duplicateCandidates :: "(string \<times> dup_entry list) list"
  errors :: nat
  startTime :: int

definition LARGE_FILE_THRESHOLD_MB :: int where
  "LARGE_FILE_THRESHOLD_MB = 50"

definition OLD_FILE_THRESHOLD_DAYS :: int where
  "OLD_FILE_THRESHOLD_DAYS = 365"

definition MAX_DUPLICATE_GROUPS :: nat where
  "MAX_DUPLICATE_GROUPS = 100"

definition BATCH_SIZE :: nat where
  "BATCH_SIZE = 100"

definition msPerDay :: int where
  "msPerDay = 1000 * 60 * 60 * 24"

text \<open>
  \<open>initializeStats\<close> on the parsed property; \<open>None\<close> is the object \<open>{}\<close> parsed when
  nothing is stored. \<open>now\<close> is the clock for \<open>startTime\<close>.
\<close>

definition initializeStats :: "int \<Rightarrow> inventory_stats option \<Rightarrow> inventory_stats" where
  "initializeStats now stored =
     (case stored of
        None \<Rightarrow> \<lparr> totalFiles = 0, totalSize = 0, filesByType = Map.empty,
                  filesByFolder = Map.empty, filesByOwner = Map.empty, filesByYear = Map.empty,
                  largeFiles = [], oldFiles = [], sharedFiles = [], duplicateCandidates = [],
                  errors = 0, startTime = now \<rparr>
      | Some st \<Rightarrow> st)"

text \<open>The decimal digits of a number, as \<open>String(n)\<close> prints an integer.\<close>

fun digits :: "nat \<Rightarrow> string" where
  "digits n = (if n < 10 then [char_of (48 + n)] else digits (n div 10) @ [char_of (48 + n mod 10)])"

declare digits.simps [simp del]

definition numToString :: "int \<Rightarrow> string" where
  "numToString i = (if i < 0 then CHR ''-'' # digits (nat (- i)) else digits (nat i))"

text \<open>The template string \<open>`${fileData.name}_${fileData.size}`\<close>.\<close>

definition duplicateKey :: "string \<Rightarrow> int \<Rightarrow> string" where
  "duplicateKey name sz = name @ ''_'' @ numToString sz"

text \<open>
  \<open>if (!candidates[key]) candidates[key] = []; candidates[key].push(entry)\<close>: the entry
  joins the group of its key, and a new key goes to the end.
\<close>

fun pushCandidate :: "string \<Rightarrow> dup_entry \<Rightarrow> (string \<times> dup_entry list) list
                        \<Rightarrow> (string \<times> dup_entry list) list" where
  "pushCandidate key e [] = [(key, [e])]"
| "pushCandidate key e ((k, es) # rest) =
     (if k = key then (k, es @ [e]) # rest else (k, es) # pushCandidate key e rest)"

text \<open>
  The statistics part of \<open>processFileForInventory\<close>, between \<open>extractFileData\<close> and
  \<open>addToFileListSheet\<close>. \<open>getFullYear\<close> is the host's calendar (it depends on the
  script's time zone). The age in days is \<open>(now - lastModified) / msPerDay\<close>, compared
  with a whole number of days and rounded down by \<open>Math.floor\<close>.
\<close>

definition updateStats :: "(int \<Rightarrow> int) \<Rightarrow> int \<Rightarrow> file_data \<Rightarrow> inventory_stats \<Rightarrow> inventory_stats" where
  "updateStats getFullYear now fd st0 =
     (let st1 = st0\<lparr>totalFiles := totalFiles st0 + 1, totalSize := totalSize st0 + fdSize fd\<rparr>;
          st2 = st1\<lparr>filesByType := incr (filesByType st1) (fdType fd)\<rparr>;
          year = getFullYear (fdLastModified fd);
          st3 = st2\<lparr>filesByYear := incr (filesByYear st2) year\<rparr>;
          st4 = (if fdFolderPath fd \<noteq> []
                 then st3\<lparr>filesByFolder := incr (filesByFolder st3) (fdFolderPath fd)\<rparr>
                 else st3);
          st5 = st4\<lparr>filesByOwner := incr (filesByOwner st4) (fdOwner fd)\<rparr>;
          st6 = (if fdSize fd > LARGE_FILE_THRESHOLD_MB * 1024 * 1024
                 then st5\<lparr>largeFiles :=
                          take 100 (sortDescBy leSize
                            (largeFiles st5 @ [\<lparr> leName = fdName fd, leSize = fdSize fd,
                                                 lePath = fdFolderPath fd, leUrl = fdUrl fd \<rparr>]))\<rparr>
                 else st5);
          ageMs = now - fdLastModified fd;
          st7 = (if ageMs > OLD_FILE_THRESHOLD_DAYS * msPerDay
                 then (if length (oldFiles st6) < 100
                       then st6\<lparr>oldFiles := oldFiles st6 @
                              [\<lparr> oeName = fdName fd, oeLastModified = fdLastModified fd,
                                 oeAgeInDays = ageMs div msPerDay,
                                 oePath = fdFolderPath fd, oeUrl = fdUrl fd \<rparr>]\<rparr>
                       else st6)
                 else st6);
          st8 = (if fdSharingAccess fd \<noteq> ''Private''
                 then (if length (sharedFiles st7) < 100
                       then st7\<lparr>sharedFiles := sharedFiles st7 @
                              [\<lparr> seName = fdName fd, seSharingAccess = fdSharingAccess fd,
                                 seSharingPermission = fdSharingPermission fd,
                                 sePath = fdFolderPath fd, seUrl = fdUrl fd \<rparr>]\<rparr>
                       else st7)
                 else st7)
      in st8\<lparr>duplicateCandidates :=
               pushCandidate (duplicateKey (fdName fd) (fdSize fd))
                 \<lparr> deName = fdName fd, dePath = fdFolderPath fd, deSize = fdSize fd,
                    deLastModified = fdLastModified fd, deUrl = fdUrl fd \<rparr>
                 (duplicateCandidates st8)\<rparr>)"

text \<open>
  \<open>processFileForInventory\<close>: the result says whether the call threw, and carries the
  statistics object as the call leaves it (the object is mutated in place, so what was
  done before a throw stays). The \<open>catch\<close> of the function rethrows.
\<close>

definition processFileForInventory ::
  "(int \<Rightarrow> int) \<Rightarrow> host_file \<Rightarrow> inventory_stats \<Rightarrow> js_error option \<times> inventory_stats" where
  "processFileForInventory getFullYear file st =
     (case hfData file of
        None \<Rightarrow> (Some HostError, st)
      | Some fd \<Rightarrow>
          (let st' = updateStats getFullYear (hfNow file) fd st
           in if hfRowRejected file then (Some HostError, st') else (None, st')))"

text \<open>
  The \<open>for\<close> loop of \<open>runInventoryBatch\<close> over the page, with its \<open>try\<close>/\<open>catch\<close>:
  the pair is \<open>processedCount\<close> and the statistics.
\<close>

fun processPage :: "(int \<Rightarrow> int) \<Rightarrow> host_file list \<Rightarrow> nat \<times> inventory_stats
                      \<Rightarrow> nat \<times> inventory_stats" where
  "processPage getFullYear [] (processedCount, st) = (processedCount, st)"
| "processPage getFullYear (file # files) (processedCount, st) =
     (case processFileForInventory getFullYear file st of
        (None, st') \<Rightarrow> processPage getFullYear files (processedCount + 1, st')
      | (Some error, st') \<Rightarrow>
          processPage getFullYear files (processedCount, st'\<lparr>errors := errors st' + 1\<rparr>))"

section \<open>Complete inventory: one batch\<close>

text \<open>The statuses that \<open>updateInventoryStatus\<close> knows a colour for.\<close>

datatype run_status = RUNNING | PAUSED | COMPLETE | ERROR

text \<open>
  The script properties of the inventory. A continuation token stands for the position
  of the file iterator: it is modelled as the files that the iterator has not returned
  yet. The statistics are stored as \<open>JSON.stringify\<close> writes them and read back with
  \<open>JSON.parse\<close>; they consist of numbers, strings, arrays and plain objects, which the
  two functions reproduce, so the property is modelled by the value itself.
\<close>

record script_properties =
  spContinuationToken :: "host_file list option"
  spInventoryStats :: "inventory_stats option"
  spAutoMode :: "string option"

text \<open>
  What a batch can change outside its own variables: the script properties, the status
  cell of the overview sheet, and the statistics from which \<open>generateFinalReports\<close> last
  wrote the report sheets.
\<close>

record world =
  wProps :: script_properties
  wStatus :: "run_status option"
  wFinalReports :: "inventory_stats option"

text \<open>
  The host, which is not part of the repository: the listing of the drive that
  \<open>DriveApp.searchFiles\<close> iterates over, the clock, the calendar, the length of the text
  that \<open>JSON.stringify\<close> produces for the statistics, and the largest value that the
  property store accepts. \<open>setProperty\<close> with a longer value throws and leaves the
  store as it was.
\<close>

record host =
  hDrive :: "host_file list"
  hNow :: int
  hGetFullYear :: "int \<Rightarrow> int"
  hStringifyLength :: "inventory_stats \<Rightarrow> nat"
  hQuota :: nat

record batch_result =
  processedCount :: nat
  hasMore :: bool

text \<open>\<open>shouldIncludeFile\<close> with \<open>INCLUDE_GOOGLE_FILES\<close> true and \<open>INCLUDE_TRASHED\<close> false.\<close>

definition shouldIncludeFile :: "host_file \<Rightarrow> bool" where
  "shouldIncludeFile file = (if hfTrashed file then False else True)"

text \<open>
  The \<open>while (files.hasNext() && count < batchSize)\<close> loop of \<open>getFilesToProcess\<close>:
  the result is the page and the files left in the iterator.
\<close>

fun collectFiles :: "host_file list \<Rightarrow> nat \<Rightarrow> nat \<Rightarrow> host_file list
                       \<Rightarrow> host_file list \<times> host_file list" where
  "collectFiles [] count batchSize filesToProcess = (filesToProcess, [])"
| "collectFiles (file # rest) count batchSize filesToProcess =
     (if count < batchSize
      then (if shouldIncludeFile file
            then collectFiles rest (count + 1) batchSize (filesToProcess @ [file])
            else collectFiles rest count batchSize filesToProcess)
      else (filesToProcess, file # rest))"

definition getFilesToProcess :: "host \<Rightarrow> host_file list option \<Rightarrow> nat
                                   \<Rightarrow> host_file list \<times> host_file list" where
  "getFilesToProcess h continuationToken batchSize =
     (let files = (case continuationToken of Some position \<Rightarrow> position | None \<Rightarrow> hDrive h)
      in collectFiles files 0 batchSize [])"

definition clearedProperties :: script_properties where
  "clearedProperties =
     \<lparr> spContinuationToken = None, spInventoryStats = None, spAutoMode = None \<rparr>"

text \<open>
  \<open>runInventoryBatch\<close>. The result is what the call returns, or the exception that
  leaves it, together with the world as the call leaves it. Nothing in the function
  catches an exception of \<open>setProperty\<close>. After the statistics are saved,
  \<open>updateOverviewSheet\<close> clears the overview sheet, the status cell included, and writes
  nothing into that cell: a batch that continues leaves it empty, a batch that
  finishes writes \<open>COMPLETE\<close> into it afterwards.
\<close>

definition runInventoryBatch :: "host \<Rightarrow> world \<Rightarrow> (js_error + batch_result) \<times> world" where
  "runInventoryBatch h w0 =
     (let continuationToken = spContinuationToken (wProps w0);
          stats = initializeStats (hNow h) (spInventoryStats (wProps w0));
          w1 = w0\<lparr>wStatus := Some RUNNING\<rparr>;
          (files, iterator) = getFilesToProcess h continuationToken BATCH_SIZE
      in if length files = 0
         then (Inr \<lparr> processedCount = 0, hasMore = False \<rparr>,
               w1\<lparr>wFinalReports := Some stats, wStatus := Some COMPLETE,
                    wProps := clearedProperties\<rparr>)
         else (let (count, stats') = processPage (hGetFullYear h) files (0, stats)
               in if hStringifyLength h stats' > hQuota h
                  then (Inl QuotaExceeded, w1)
                  else (let w2 = w1\<lparr>wProps := (wProps w1)\<lparr>spInventoryStats := Some stats'\<rparr>\<rparr>;
                            more = (iterator \<noteq> [])
                        in if more
                           then (Inr \<lparr> processedCount = count, hasMore = True \<rparr>,
                                 w2\<lparr>wStatus := None,
                                      wProps := (wProps w2)\<lparr>spContinuationToken := Some iterator\<rparr>\<rparr>)
                           else (Inr \<lparr> processedCount = count, hasMore = False \<rparr>,
                                 w2\<lparr>wFinalReports := Some stats', wStatus := Some COMPLETE,
                                      wProps := clearedProperties\<rparr>))))"

section \<open>Document inventory: paging and completion\<close>

text \<open>What \<open>isDocumentFile\<close> reads of a file.\<close>

record doc_file =
  dfName :: string
  dfMimeType :: string

definition documentMimeTypes :: "string list" where
  "documentMimeTypes =
     [''application/pdf'', ''application/msword'',
      ''application/vnd.openxmlformats-officedocument.wordprocessingml.document'',
      ''application/vnd.ms-excel'',
      ''application/vnd.openxmlformats-officedocument.spreadsheetml.sheet'',
      ''application/vnd.ms-powerpoint'',
      ''application/vnd.openxmlformats-officedocument.presentationml.presentation'',
      ''text/plain'', ''text/csv'']"

definition documentExtensions :: "string list" where
  "documentExtensions =
     [''doc'', ''docx'', ''pdf'', ''txt'', ''xls'', ''xlsx'', ''ppt'', ''pptx'', ''csv'']"

definition isDocumentFile :: "doc_file \<Rightarrow> bool" where
  "isDocumentFile file =
     (let mimeType = dfMimeType file;
          fileName = toLowerCase (dfName file)
      in if startsWith mimeType googlePrefix
         then (let googleType = drop (length googlePrefix) mimeType
               in googleType \<in> set [''document'', ''spreadsheet'', ''presentation'', ''form''])
         else if mimeType \<in> set documentMimeTypes then True
         else lastSegment fileName \<in> set documentExtensions)"

text \<open>
  The loop \<open>while (files.hasNext() && count < batchSize && checkedCount < maxCheck)\<close>
  of \<open>getDocumentFilesToProcess\<close>: the page and the files left in the iterator.
\<close>

fun collectDocuments :: "doc_file list \<Rightarrow> nat \<Rightarrow> nat \<Rightarrow> nat \<Rightarrow> nat \<Rightarrow> doc_file list
                           \<Rightarrow> doc_file list \<times> doc_file list" where
  "collectDocuments [] count checkedCount batchSize maxCheck filesToProcess = (filesToProcess, [])"
| "collectDocuments (file # rest) count checkedCount batchSize maxCheck filesToProcess =
     (if count < batchSize \<and> checkedCount < maxCheck
      then (if isDocumentFile file
            then collectDocuments rest (count + 1) (checkedCount + 1) batchSize maxCheck
                   (filesToProcess @ [file])
            else collectDocuments rest count (checkedCount + 1) batchSize maxCheck filesToProcess)
      else (filesToProcess, file # rest))"

definition getDocumentFilesToProcess :: "doc_file list \<Rightarrow> doc_file list option \<Rightarrow> nat
                                           \<Rightarrow> doc_file list \<times> doc_file list" where
  "getDocumentFilesToProcess drive continuationToken batchSize =
     (let files = (case continuationToken of Some position \<Rightarrow> position | None \<Rightarrow> drive);
          maxCheck = batchSize * 10
      in collectDocuments files 0 0 batchSize maxCheck [])"

definition DOCUMENT_BATCH_SIZE :: nat where
  "DOCUMENT_BATCH_SIZE = 50"

text \<open>
  How \<open>runDocumentInventoryBatch\<close> ends, as far as the page and the iterator decide it
  (the statistics of the documents are left out): \<open>Finished\<close> when it writes the final
  reports and deletes its properties, \<open>Continue token\<close> when it stores the token.
\<close>

datatype doc_outcome = Finished | Continue "doc_file list"

definition documentBatchOutcome :: "doc_file list \<Rightarrow> doc_file list option \<Rightarrow> doc_outcome" where
  "documentBatchOutcome drive continuationToken =
     (let (files, iterator) = getDocumentFilesToProcess drive continuationToken DOCUMENT_BATCH_SIZE
      in if length files = 0 then Finished
         else (let more = (iterator \<noteq> []) in if more then Continue iterator else Finished))"

section \<open>Optimized inventory: statistics and per-file processing\<close>

text \<open>
  The statistics object of \<open>initializeStatsInSheet\<close>. \<open>filesByType\<close> is kept as the list
  of its entries, since the code counts its keys.
\<close>

record optimized_stats =
  osTotalFiles :: nat
  osTotalSize :: int
  osFilesByType :: "(string \<times> nat) list"
  osFilesByYear :: "int \<rightharpoonup> nat"
  osLargeFiles :: "large_entry list"
  osOldFiles :: "old_entry list"
  osSharedFiles :: "shared_entry list"
  osErrors :: nat
  osStartTime :: int

definition MAX_LARGE_FILES :: nat where
  "MAX_LARGE_FILES = 100"

definition MAX_OLD_FILES :: nat where
  "MAX_OLD_FILES = 100"

definition MAX_SHARED_FILES :: nat where
  "MAX_SHARED_FILES = 100"

definition initializeStatsInSheet :: "int \<Rightarrow> optimized_stats" where
  "initializeStatsInSheet now =
     \<lparr> osTotalFiles = 0, osTotalSize = 0, osFilesByType = [], osFilesByYear = Map.empty,
       osLargeFiles = [], osOldFiles = [], osSharedFiles = [], osErrors = 0,
       osStartTime = now \<rparr>"

text \<open>\<open>m[k] = (m[k] || 0) + 1\<close> on the list of entries; a new key goes to the end.\<close>

fun bumpEntry :: "string \<Rightarrow> (string \<times> nat) list \<Rightarrow> (string \<times> nat) list" where
  "bumpEntry k [] = [(k, 1)]"
| "bumpEntry k ((k', n) # rest) =
     (if k' = k then (k', n + 1) # rest else (k', n) # bumpEntry k rest)"

text \<open>The statements of \<open>processFileOptimized\<close> before the row is appended to the sheet.\<close>

definition updateCountsOptimized ::
  "(int \<Rightarrow> int) \<Rightarrow> file_data \<Rightarrow> optimized_stats \<Rightarrow> optimized_stats" where
  "updateCountsOptimized getFullYear fd st0 =
     (let st1 = st0\<lparr>osTotalFiles := osTotalFiles st0 + 1,
                      osTotalSize := osTotalSize st0 + fdSize fd\<rparr>;
          st2 = (if length (osFilesByType st1) < 50
                    \<or> (case map_of (osFilesByType st1) (fdType fd) of
                          None \<Rightarrow> False | Some n \<Rightarrow> 0 < n)
                 then st1\<lparr>osFilesByType := bumpEntry (fdType fd) (osFilesByType st1)\<rparr>
                 else st1);
          year = getFullYear (fdLastModified fd)
      in st2\<lparr>osFilesByYear := incr (osFilesByYear st2) year\<rparr>)"

text \<open>The statements after it: the three capped lists.\<close>

definition updateListsOptimized :: "int \<Rightarrow> file_data \<Rightarrow> optimized_stats \<Rightarrow> optimized_stats" where
  "updateListsOptimized now fd st0 =
     (let st1 = (if fdSize fd > LARGE_FILE_THRESHOLD_MB * 1024 * 1024
                 then (if length (osLargeFiles st0) < MAX_LARGE_FILES
                       then (let sorted = sortDescBy leSize
                                   (osLargeFiles st0 @ [\<lparr> leName = fdName fd, leSize = fdSize fd,
                                        lePath = fdFolderPath fd, leUrl = fdUrl fd \<rparr>])
                             in if length sorted > MAX_LARGE_FILES
                                then st0\<lparr>osLargeFiles := take MAX_LARGE_FILES sorted\<rparr>
                                else st0\<lparr>osLargeFiles := sorted\<rparr>)
                       else st0)
                 else st0);
          ageMs = now - fdLastModified fd;
          st2 = (if ageMs > OLD_FILE_THRESHOLD_DAYS * msPerDay
                    \<and> length (osOldFiles st1) < MAX_OLD_FILES
                 then st1\<lparr>osOldFiles := osOldFiles st1 @
                        [\<lparr> oeName = fdName fd, oeLastModified = fdLastModified fd,
                           oeAgeInDays = ageMs div msPerDay,
                           oePath = fdFolderPath fd, oeUrl = fdUrl fd \<rparr>]\<rparr>
                 else st1)
      in (if fdSharingAccess fd \<noteq> ''PRIVATE'' \<and> length (osSharedFiles st2) < MAX_SHARED_FILES
          then st2\<lparr>osSharedFiles := osSharedFiles st2 @
                 [\<lparr> seName = fdName fd, seSharingAccess = fdSharingAccess fd,
                    seSharingPermission = fdSharingPermission fd,
                    sePath = fdFolderPath fd, seUrl = fdUrl fd \<rparr>]\<rparr>
          else st2))"

text \<open>
  \<open>processFileOptimized\<close>: whether the call threw, and the statistics as it leaves them.
  The row is appended between the counters and the lists, so a rejected row leaves the
  counters updated and the lists untouched.
\<close>

definition processFileOptimized ::
  "(int \<Rightarrow> int) \<Rightarrow> host_file \<Rightarrow> optimized_stats \<Rightarrow> js_error option \<times> optimized_stats" where
  "processFileOptimized getFullYear file st =
     (case hfData file of
        None \<Rightarrow> (Some HostError, st)
      | Some fd \<Rightarrow>
          (let st' = updateCountsOptimized getFullYear fd st
           in if hfRowRejected file then (Some HostError, st')
              else (None, updateListsOptimized (hfNow file) fd st')))"

definition PROGRESS_SAVE_INTERVAL :: nat where
  "PROGRESS_SAVE_INTERVAL = 50"

text \<open>
  The \<open>for\<close> loop of \<open>runOptimizedInventory\<close> over a page, with its \<open>try\<close>/\<open>catch\<close>.
  Inside the \<open>try\<close>, after \<open>processFileOptimized\<close> and the two increments, every
  \<open>PROGRESS_SAVE_INTERVAL\<close>-th processed file is followed by \<open>updateStatsInSheet\<close>, which can
  throw as well. The \<open>catch\<close> handler first builds its message with \<open>file.getName()\<close> and
  then increments \<open>stats.errors\<close>: when \<open>getName\<close> throws, the exception leaves the handler,
  the loop and \<open>runOptimizedInventory\<close>, and the counter is not incremented. The result is
  that exception, if any, with \<open>processedInBatch\<close> and the statistics as the loop leaves
  them.
\<close>

fun processPageOptimized :: "(int \<Rightarrow> int) \<Rightarrow> host_file list \<Rightarrow> nat \<times> optimized_stats
                               \<Rightarrow> js_error option \<times> nat \<times> optimized_stats" where
  "processPageOptimized getFullYear [] (processedInBatch, st) = (None, processedInBatch, st)"
| "processPageOptimized getFullYear (file # files) (processedInBatch, st) =
     (case processFileOptimized getFullYear file st of
        (None, st') \<Rightarrow>
          (if (processedInBatch + 1) mod PROGRESS_SAVE_INTERVAL = 0 \<and> hfProgressRejected file
           then (if hfNameThrows file then (Some HostError, processedInBatch + 1, st')
                 else processPageOptimized getFullYear files
                        (processedInBatch + 1, st'\<lparr>osErrors := osErrors st' + 1\<rparr>))
           else processPageOptimized getFullYear files (processedInBatch + 1, st'))
      | (Some error, st') \<Rightarrow>
          (if hfNameThrows file then (Some HostError, processedInBatch, st')
           else processPageOptimized getFullYear files
                  (processedInBatch, st'\<lparr>osErrors := osErrors st' + 1\<rparr>)))"

section \<open>Code files inventory: statistics across batches\<close>

text \<open>The record built by \<open>extractCodeFileData\<close> (the fields that the statistics read).\<close>

record code_file_data =
  cfName :: string
  cfLanguage :: string
  cfCategory :: string
  cfSize :: int
  cfLastModified :: int
  cfOwner :: string
  cfUrl :: string
  cfFolderPath :: string
  cfProject :: string
  cfIsInRepository :: bool

text \<open>
  The value of the field \<open>languages\<close> of a repository entry: the \<open>Set\<close> that
  \<open>processCodeFile\<close> creates, with its members in insertion order, or the plain object
  \<open>{}\<close>, which is what \<open>JSON.parse\<close> returns for a stringified \<open>Set\<close> (a \<open>Set\<close> has no
  enumerable properties, so \<open>JSON.stringify\<close> writes it as \<open>{}\<close>).
\<close>

datatype js_languages = LanguageSet "string list" | PlainObject

record repository_info =
  riFileCount :: nat
  riLanguages :: js_languages
  riHasConfig :: bool
  riLastActivity :: int

record code_large_entry =
  clName :: string
  clSize :: int
  clLanguage :: string
  clCategory :: string
  clPath :: string
  clUrl :: string
  clLastModified :: int

record code_old_entry =
  coName :: string
  coLanguage :: string
  coLastModified :: int
  coAgeInDays :: int
  coPath :: string
  coUrl :: string

record code_stats =
  csTotalFiles :: nat
  csTotalSize :: int
  csByLanguage :: "string \<Rightarrow> nat option"
  csByCategory :: "string \<Rightarrow> nat option"
  csByProject :: "string \<Rightarrow> nat option"
  csByOwner :: "string \<Rightarrow> nat option"
  csByYear :: "int \<Rightarrow> nat option"
  csLargeFiles :: "code_large_entry list"
  csOldFiles :: "code_old_entry list"
  csRepositories :: "string \<Rightarrow> repository_info option"
  csErrors :: nat
  csStartTime :: int

definition CODE_LARGE_FILE_THRESHOLD_MB :: int where
  "CODE_LARGE_FILE_THRESHOLD_MB = 5"

definition initializeCodeStats :: "int \<Rightarrow> code_stats option \<Rightarrow> code_stats" where
  "initializeCodeStats now stored =
     (case stored of
        None \<Rightarrow> \<lparr> csTotalFiles = 0, csTotalSize = 0, csByLanguage = Map.empty,
                  csByCategory = Map.empty, csByProject = Map.empty, csByOwner = Map.empty,
                  csByYear = Map.empty, csLargeFiles = [], csOldFiles = [],
                  csRepositories = Map.empty, csErrors = 0, csStartTime = now \<rparr>
      | Some st \<Rightarrow> st)"

text \<open>
  \<open>JSON.parse(JSON.stringify(stats))\<close>: numbers, strings, arrays and plain objects come
  back as they were; the \<open>languages\<close> of every repository comes back as \<open>{}\<close>.
\<close>

definition jsonRoundTrip :: "code_stats \<Rightarrow> code_stats" where
  "jsonRoundTrip st =
     st\<lparr>csRepositories :=
          (\<lambda>project. map_option (\<lambda>r. r\<lparr>riLanguages := PlainObject\<rparr>) (csRepositories st project))\<rparr>"

text \<open>
  The block \<open>if (fileData.isInRepository) { ... }\<close>: the entry is created when absent,
  \<open>fileCount\<close> is incremented, and then \<open>languages.add(language)\<close> is called, which
  throws a \<open>TypeError\<close> when \<open>languages\<close> is a plain object, leaving the incremented
  count behind.
\<close>

definition trackRepository :: "code_file_data \<Rightarrow> code_stats \<Rightarrow> js_error option \<times> code_stats" where
  "trackRepository fd st =
     (let r0 = (case csRepositories st (cfProject fd) of
                  Some r \<Rightarrow> r
                | None \<Rightarrow> \<lparr> riFileCount = 0, riLanguages = LanguageSet [], riHasConfig = False,
                            riLastActivity = cfLastModified fd \<rparr>);
          r1 = r0\<lparr>riFileCount := riFileCount r0 + 1\<rparr>
      in case riLanguages r1 of
           PlainObject \<Rightarrow>
             (Some TypeError, st\<lparr>csRepositories := (csRepositories st)(cfProject fd := Some r1)\<rparr>)
         | LanguageSet members \<Rightarrow>
             (let r2 = r1\<lparr>riLanguages :=
                          LanguageSet (if cfLanguage fd \<in> set members then members
                                       else members @ [cfLanguage fd])\<rparr>;
                  r3 = (if cfCategory fd = ''Configuration'' then r2\<lparr>riHasConfig := True\<rparr> else r2);
                  r4 = (if cfLastModified fd > riLastActivity r3
                        then r3\<lparr>riLastActivity := cfLastModified fd\<rparr> else r3)
              in (None, st\<lparr>csRepositories := (csRepositories st)(cfProject fd := Some r4)\<rparr>)))"

text \<open>
  \<open>processCodeFile\<close> after the file's data has been extracted: whether it threw, and
  the statistics as it leaves them.
\<close>

definition processCodeFile ::
  "(int \<Rightarrow> int) \<Rightarrow> int \<Rightarrow> code_file_data \<Rightarrow> code_stats \<Rightarrow> js_error option \<times> code_stats" where
  "processCodeFile getFullYear now fd st0 =
     (let st1 = st0\<lparr>csTotalFiles := csTotalFiles st0 + 1,
                      csTotalSize := csTotalSize st0 + cfSize fd\<rparr>;
          st2 = st1\<lparr>csByLanguage := incr (csByLanguage st1) (cfLanguage fd)\<rparr>;
          st3 = st2\<lparr>csByCategory := incr (csByCategory st2) (cfCategory fd)\<rparr>;
          (thrown, st4) =
            (if cfProject fd \<noteq> []
             then (let st3' = st3\<lparr>csByProject := incr (csByProject st3) (cfProject fd)\<rparr>
                   in if cfIsInRepository fd then trackRepository fd st3' else (None, st3'))
             else (None, st3))
      in case thrown of
           Some error \<Rightarrow> (Some error, st4)
         | None \<Rightarrow>
             (let st5 = st4\<lparr>csByOwner := incr (csByOwner st4) (cfOwner fd)\<rparr>;
                  year = getFullYear (cfLastModified fd);
                  st6 = st5\<lparr>csByYear := incr (csByYear st5) year\<rparr>;
                  st7 = (if cfSize fd > CODE_LARGE_FILE_THRESHOLD_MB * 1024 * 1024
                         then st6\<lparr>csLargeFiles :=
                                  take 50 (sortDescBy clSize
                                    (csLargeFiles st6 @
                                       [\<lparr> clName = cfName fd, clSize = cfSize fd,
                                           clLanguage = cfLanguage fd, clCategory = cfCategory fd,
                                           clPath = cfFolderPath fd, clUrl = cfUrl fd,
                                           clLastModified = cfLastModified fd \<rparr>]))\<rparr>
                         else st6);
                  ageMs = now - cfLastModified fd;
                  st8 = (if ageMs > OLD_FILE_THRESHOLD_DAYS * msPerDay
                         then (if length (csOldFiles st7) < 50
                               then st7\<lparr>csOldFiles := csOldFiles st7 @
                                      [\<lparr> coName = cfName fd, coLanguage = cfLanguage fd,
                                         coLastModified = cfLastModified fd,
                                         coAgeInDays = ageMs div msPerDay,
                                         coPath = cfFolderPath fd, coUrl = cfUrl fd \<rparr>]\<rparr>
                               else st7)
                         else st7)
              in (None, st8)))"

text \<open>
  The \<open>for\<close> loop of \<open>runCodeInventoryBatch\<close> over the code files of a page, each
  given with the clock at its processing.
\<close>

fun processCodePage :: "(int \<Rightarrow> int) \<Rightarrow> (int \<times> code_file_data) list \<Rightarrow> nat \<times> code_stats
                          \<Rightarrow> nat \<times> code_stats" where
  "processCodePage getFullYear [] (processed, st) = (processed, st)"
| "processCodePage getFullYear ((now, fd) # files) (processed, st) =
     (case processCodeFile getFullYear now fd st of
        (None, st') \<Rightarrow> processCodePage getFullYear files (processed + 1, st')
      | (Some error, st') \<Rightarrow>
          processCodePage getFullYear files (processed, st'\<lparr>csErrors := csErrors st' + 1\<rparr>))"

text \<open>
  A crawl as a sequence of batches, one page each: every batch parses the stored
  statistics, processes its page and stores \<open>JSON.stringify(stats)\<close>; the result is
  the statistics object of the last batch, from which the final reports are written.
\<close>

fun runCodeBatches :: "(int \<Rightarrow> int) \<Rightarrow> int \<Rightarrow> (int \<times> code_file_data) list list
                         \<Rightarrow> code_stats option \<Rightarrow> code_stats" where
  "runCodeBatches getFullYear now [] stored = initializeCodeStats now stored"
| "runCodeBatches getFullYear now [page] stored =
     snd (processCodePage getFullYear page (0, initializeCodeStats now stored))"
| "runCodeBatches getFullYear now (page # pages) stored =
     runCodeBatches getFullYear now pages
       (Some (jsonRoundTrip
                (snd (processCodePage getFullYear page (0, initializeCodeStats now stored)))))"

section \<open>Complete inventory: what a run has seen\<close>

text \<open>The records of the files whose data could be extracted, in listing order.\<close>

definition extracted :: "host_file list \<Rightarrow> (int \<times> file_data) list" where
  "extracted files = List.map_filter (\<lambda>f. map_option (\<lambda>fd. (hfNow f, fd)) (hfData f)) files"

definition isLarge :: "file_data \<Rightarrow> bool" where
  "isLarge fd = (fdSize fd > LARGE_FILE_THRESHOLD_MB * 1024 * 1024)"

definition isOld :: "int \<times> file_data \<Rightarrow> bool" where
  "isOld obs = (fst obs - fdLastModified (snd obs) > OLD_FILE_THRESHOLD_DAYS * msPerDay)"

definition isShared :: "file_data \<Rightarrow> bool" where
  "isShared fd = (fdSharingAccess fd \<noteq> ''Private'')"

definition largeEntry :: "file_data \<Rightarrow> large_entry" where
  "largeEntry fd =
     \<lparr> leName = fdName fd, leSize = fdSize fd, lePath = fdFolderPath fd, leUrl = fdUrl fd \<rparr>"

definition oldEntry :: "int \<times> file_data \<Rightarrow> old_entry" where
  "oldEntry obs =
     \<lparr> oeName = fdName (snd obs), oeLastModified = fdLastModified (snd obs),
       oeAgeInDays = (fst obs - fdLastModified (snd obs)) div msPerDay,
       oePath = fdFolderPath (snd obs), oeUrl = fdUrl (snd obs) \<rparr>"

definition sharedEntry :: "file_data \<Rightarrow> shared_entry" where
  "sharedEntry fd =
     \<lparr> seName = fdName fd, seSharingAccess = fdSharingAccess fd,
       seSharingPermission = fdSharingPermission fd,
       sePath = fdFolderPath fd, seUrl = fdUrl fd \<rparr>"

text \<open>The entries of all large, old and shared files among the extracted ones, in order.\<close>

definition largeSeen :: "host_file list \<Rightarrow> large_entry list" where
  "largeSeen files = map largeEntry (filter isLarge (map snd (extracted files)))"

definition oldSeen :: "host_file list \<Rightarrow> old_entry list" where
  "oldSeen files = map oldEntry (filter isOld (extracted files))"

definition sharedSeen :: "host_file list \<Rightarrow> shared_entry list" where
  "sharedSeen files = map sharedEntry (filter isShared (map snd (extracted files)))"

definition descendingBy :: "('a \<Rightarrow> int) \<Rightarrow> 'a list \<Rightarrow> bool" where
  "descendingBy key xs = sorted_wrt (\<lambda>a b. key a \<ge> key b) xs"

text \<open>
  For the optimized inventory: the files that reach its three lists (data extracted
  and row accepted), and the entries of those among them that qualify.
\<close>

definition listed :: "host_file list \<Rightarrow> (int \<times> file_data) list" where
  "listed files = extracted (filter (\<lambda>f. \<not> hfRowRejected f) files)"

definition isSharedOptimized :: "file_data \<Rightarrow> bool" where
  "isSharedOptimized fd = (fdSharingAccess fd \<noteq> ''PRIVATE'')"

definition largeListed :: "host_file list \<Rightarrow> large_entry list" where
  "largeListed files = map largeEntry (filter isLarge (map snd (listed files)))"

definition oldListed :: "host_file list \<Rightarrow> old_entry list" where
  "oldListed files = map oldEntry (filter isOld (listed files))"

definition sharedListed :: "host_file list \<Rightarrow> shared_entry list" where
  "sharedListed files = map sharedEntry (filter isSharedOptimized (map snd (listed files)))"

section \<open>Complete inventory: duplicates report\<close>

text \<open>
  The constant \<open>duplicates\<close> of \<open>generateDuplicatesReport\<close>: the entries with more than
  one file, sorted by descending group size, cut to \<open>MAX_DUPLICATE_GROUPS\<close>.
\<close>

definition duplicateGroups :: "inventory_stats \<Rightarrow> (string \<times> dup_entry list) list" where
  "duplicateGroups st =
     take MAX_DUPLICATE_GROUPS
       (sortDescBy (\<lambda>(key, files). int (length files))
          (filter (\<lambda>(key, files). length files > 1) (duplicateCandidates st)))"

text \<open>A row of the sheet; the size is in bytes here, the sheet shows it in megabytes.\<close>

record dup_row =
  drName :: string
  drSize :: int
  drCount :: nat
  drLocations :: "string list"
  drUrls :: "string list"

text \<open>The row of a group; \<open>files[0].name\<close> on an empty group would be a \<open>TypeError\<close>.\<close>

fun duplicateRow :: "string \<times> dup_entry list \<Rightarrow> js_error + dup_row" where
  "duplicateRow (key, []) = Inl TypeError"
| "duplicateRow (key, f # fs) =
     Inr \<lparr> drName = deName f, drSize = deSize f, drCount = length (f # fs),
           drLocations = map dePath (f # fs), drUrls = map deUrl (f # fs) \<rparr>"

definition generateDuplicatesReport :: "inventory_stats \<Rightarrow> (js_error + dup_row) list" where
  "generateDuplicatesReport st = map duplicateRow (duplicateGroups st)"

text \<open>
  What the duplicates report is to show for a run: the entries of the files whose data
  was extracted, in listing order, put together by name and size, the groups in the order
  of their first file.
\<close>

definition dupEntryOf :: "file_data \<Rightarrow> dup_entry" where
  "dupEntryOf fd =
     \<lparr> deName = fdName fd, dePath = fdFolderPath fd, deSize = fdSize fd,
       deLastModified = fdLastModified fd, deUrl = fdUrl fd \<rparr>"

definition nameAndSize :: "dup_entry \<Rightarrow> string \<times> int" where
  "nameAndSize e = (deName e, deSize e)"

definition entriesSeen :: "host_file list \<Rightarrow> dup_entry list" where
  "entriesSeen files = map (\<lambda>obs. dupEntryOf (snd obs)) (extracted files)"

definition groupedByNameAndSize :: "dup_entry list \<Rightarrow> (string \<times> dup_entry list) list" where
  "groupedByNameAndSize es =
     map (\<lambda>p. (duplicateKey (fst p) (snd p), filter (\<lambda>e. nameAndSize e = p) es))
       (firstOccurrences (map nameAndSize es))"

text \<open>When \<open>processFileForInventory\<close> throws on a file.\<close>

definition fails :: "host_file \<Rightarrow> bool" where
  "fails f = (hfData f = None \<or> hfRowRejected f)"

text \<open>
  The files of a page that the loop of the optimized inventory gets to, when
  \<open>processedInBatch\<close> is \<open>n\<close> at its start: all of them, or those up to the file at which
  the \<open>catch\<close> handler throws.
\<close>

fun handled :: "nat \<Rightarrow> host_file list \<Rightarrow> host_file list" where
  "handled n [] = []"
| "handled n (f # fs) =
     (if fails f
      then (if hfNameThrows f then [f] else f # handled n fs)
      else if (n + 1) mod PROGRESS_SAVE_INTERVAL = 0 \<and> hfProgressRejected f
      then (if hfNameThrows f then [f] else f # handled (n + 1) fs)
      else f # handled (n + 1) fs)"

section \<open>Concrete files for the complete inventory\<close>

definition plainFile :: "string \<Rightarrow> int \<Rightarrow> int \<Rightarrow> host_file" where
  "plainFile name sz ageDays =
     \<lparr> hfData = Some \<lparr> fdName = name, fdType = ''Text File'', fdSize = sz,
                         fdLastModified = 0, fdOwner = ''ann@example.org'',
                         fdUrl = ''https://drive.example/f'', fdFolderPath = ''Root'',
                         fdSharingAccess = ''Private'', fdSharingPermission = ''None'' \<rparr>,
       hfTrashed = False, hfNow = ageDays * msPerDay, hfRowRejected = False,
       hfNameThrows = False, hfProgressRejected = False \<rparr>"

text \<open>A file that has become inaccessible: every getter throws, \<open>getName\<close> included.\<close>

definition vanishedFile :: host_file where
  "vanishedFile =
     \<lparr> hfData = None, hfTrashed = False, hfNow = 0, hfRowRejected = False,
       hfNameThrows = True, hfProgressRejected = False \<rparr>"

definition threeRecords :: "host_file list" where
  "threeRecords = [plainFile ''a.txt'' 100 1, plainFile ''a.txt'' 100 1, plainFile ''b.txt'' 50 1]"

definition twoOldFiles :: "host_file list" where
  "twoOldFiles = [plainFile ''newer.txt'' 10 400, plainFile ''older.txt'' 10 800]"

text \<open>A calendar for the examples: the year of an instant, in years of 365 days.\<close>

definition plainYear :: "int \<Rightarrow> int" where
  "plainYear ms = 1970 + ms div (365 * msPerDay)"

section \<open>Concrete drives\<close>

definition reportDoc :: doc_file where
  "reportDoc = \<lparr> dfName = ''report.docx'', dfMimeType = ''application/msword'' \<rparr>"

definition photo :: doc_file where
  "photo = \<lparr> dfName = ''photo.png'', dfMimeType = ''image/png'' \<rparr>"

text \<open>One document followed by 500 photos.\<close>

definition photoDrive :: "doc_file list" where
  "photoDrive = reportDoc # replicate 500 photo"

text \<open>A host whose store accepts no value longer than 10 characters, and a fresh world.\<close>

definition tinyQuotaHost :: host where
  "tinyQuotaHost =
     \<lparr> hDrive = threeRecords, hNow = 0, hGetFullYear = plainYear,
       hStringifyLength = (\<lambda>st. 20 + 50 * totalFiles st), hQuota = 10 \<rparr>"

definition roomyHost :: host where
  "roomyHost = tinyQuotaHost\<lparr>hQuota := 9000\<rparr>"

definition freshWorld :: world where
  "freshWorld = \<lparr> wProps = clearedProperties, wStatus = None, wFinalReports = None \<rparr>"

text \<open>
  A world with a checkpoint: the statistics of one processed file are stored, and the
  token holds the two files that the iterator has not returned yet.
\<close>

definition pausedWorld :: world where
  "pausedWorld =
     \<lparr> wProps =
         \<lparr> spContinuationToken = Some [plainFile ''a.txt'' 100 1, plainFile ''b.txt'' 50 1],
           spInventoryStats =
             Some (snd (processPage plainYear [plainFile ''a.txt'' 100 1] (0, initializeStats 0 None))),
           spAutoMode = Some ''true'' \<rparr>,
       wStatus = Some RUNNING, wFinalReports = None \<rparr>"

text \<open>Two Python files of the folder \<open>src\<close>, which is their project and a repository.\<close>

definition pythonFile :: "string \<Rightarrow> code_file_data" where
  "pythonFile name =
     \<lparr> cfName = name, cfLanguage = ''Python'', cfCategory = ''Source Code'', cfSize = 1200,
       cfLastModified = 0, cfOwner = ''ann@example.org'', cfUrl = ''https://drive.example/c'',
       cfFolderPath = ''src'', cfProject = ''src'', cfIsInRepository = True \<rparr>"

definition mainPy :: "int \<times> code_file_data" where
  "mainPy = (msPerDay, pythonFile ''main.py'')"

definition parserPy :: "int \<times> code_file_data" where
  "parserPy = (msPerDay, pythonFile ''parser.py'')"

section \<open>Auxiliary functions for the proofs\<close>

text \<open>Insertion after the elements whose key is not greater: where a stable sort puts
  an element appended to a sorted list.\<close>

fun insortLast :: "('a \<Rightarrow> int) \<Rightarrow> 'a \<Rightarrow> 'a list \<Rightarrow> 'a list" where
  "insortLast f x [] = [x]"
| "insortLast f x (z # zs) = (if f z \<le> f x then z # insortLast f x zs else x # z # zs)"

text \<open>The number that a string of decimal digits denotes.\<close>

definition undigits :: "string \<Rightarrow> nat" where
  "undigits s = foldl (\<lambda>a c. 10 * a + (of_char c - 48)) 0 s"


lemma foldl_keywordStep:
  "foldl (keywordStep n d) r ks =
     r + 5 * int (length (filter (\<lambda>k. strIncludes n k \<or> strIncludes d k) ks))"
  by (induction ks arbitrary: r) (simp_all add: keywordStep_def)

lemma keywordLoop_count: "keywordLoop n d r = r + 5 * int (length (matchedKeywords n d))"
  by (simp add: keywordLoop_def matchedKeywords_def foldl_keywordStep)

lemma typeRisk_bounds: "0 \<le> typeRisk fd \<and> typeRisk fd \<le> 10"
  by (simp add: typeRisk_def)

lemma externalUsersRisk_bounds: "0 \<le> externalUsersRisk fd \<and> externalUsersRisk fd \<le> 15"
  by (simp add: externalUsersRisk_def)



text \<open>The score as one expression: the cap at 25 encloses access, permission and keywords.\<close>

lemma assessSecurityRisk_eq:
  "assessSecurityRisk fd =
     min (min (accessRisk fd + permissionRisk fd
               + 5 * int (length (matchedKeywords (toLowerCase (sfName fd))
                                                  (toLowerCase (sfDescription fd))))) 25
          + typeRisk fd + externalUsersRisk fd) 100"
  by (simp add: assessSecurityRisk_def Let_def keywordLoop_count)

lemma assessSecurityRisk_le_50: "assessSecurityRisk fd \<le> 50"
proof -
  have "typeRisk fd \<le> 10" and "externalUsersRisk fd \<le> 15"
    using typeRisk_bounds externalUsersRisk_bounds by simp_all
  then show ?thesis
    unfolding assessSecurityRisk_eq by linarith
qed

lemma categorizeSharing_highRisk: "ssHighRiskFiles (categorizeSharing fd st) = ssHighRiskFiles st"
  by (simp add: categorizeSharing_def)

lemma processSharedFile_highRisk:
  "ssHighRiskFiles (processSharedFile fd st) = ssHighRiskFiles st"
proof -
  have "\<not> assessSecurityRisk fd \<ge> 70"
    using assessSecurityRisk_le_50 [of fd] by linarith
  then show ?thesis
    by (simp add: processSharedFile_def Let_def categorizeSharing_highRisk)
qed

lemma processSharedFiles_highRisk:
  "ssHighRiskFiles (processSharedFiles fds st) = ssHighRiskFiles st"
  unfolding processSharedFiles_def
  by (induction fds arbitrary: st) (simp_all add: processSharedFile_highRisk)



















text \<open>
  C5. For every file record \<open>assessSecurityRisk\<close> returns at most 50: the statement
  \<open>riskScore = Math.min(riskScore, 25)\<close> bounds everything accumulated before it, and
  only 10 points for the file type and 15 for external domains can follow. The test
  \<open>riskLevel >= 70\<close> of \<open>processSharedFile\<close> therefore never holds: a file leaves
  \<open>highRiskFiles\<close> as it was, and the list is empty after every run from fresh statistics.
\<close>

theorem highRiskFiles_always_empty:
  "assessSecurityRisk fd \<le> 50
   \<and> \<not> 70 \<le> assessSecurityRisk fd
   \<and> ssHighRiskFiles (processSharedFile fd st) = ssHighRiskFiles st
   \<and> ssHighRiskFiles (processSharedFiles fds (initializeSharedFilesStats None)) = []"
proof -
  have "assessSecurityRisk fd \<le> 50" by (rule assessSecurityRisk_le_50)
  moreover from this have "\<not> 70 \<le> assessSecurityRisk fd" by linarith
  moreover have "ssHighRiskFiles (initializeSharedFilesStats None) = []"
    by (simp add: initializeSharedFilesStats_def)
  ultimately show ?thesis
    by (simp add: processSharedFile_highRisk processSharedFiles_highRisk)
qed

text \<open>
  C3. The claim asks that the cap of 25 apply to the keyword points only, and that
  the other factors count in full. On \<open>publicEditPdf\<close> no keyword matches and the other
  factors are worth 40 (public) + 20 (public edit) + 10 (PDF) = 70 points, yet the
  function returns 35: the cap has cut the 60 points of access and permission to 25.
\<close>

theorem assessSecurityRisk_caps_other_factors:
  "matchedKeywords (toLowerCase (sfName publicEditPdf)) (toLowerCase (sfDescription publicEditPdf)) = []
   \<and> accessRisk publicEditPdf + permissionRisk publicEditPdf + typeRisk publicEditPdf
       + externalUsersRisk publicEditPdf = 70
   \<and> assessSecurityRisk publicEditPdf = 35"
  by code_simp



lemma insort_key_insortLast:
  "insort_key f y (insortLast f x zs) = insortLast f x (insort_key f y zs)"
  by (induction zs) auto

lemma sort_key_snoc: "sort_key f (ys @ [x]) = insortLast f x (sort_key f ys)"
  by (induction ys) (simp_all add: insort_key_insortLast)

lemma take_insortLast_take: "take m (insortLast f x (take m zs)) = take m (insortLast f x zs)"
proof (induction zs arbitrary: m)
  case Nil
  then show ?case by simp
next
  case (Cons z zs)
  show ?case
  proof (cases m)
    case 0
    then show ?thesis by simp
  next
    case (Suc k)
    then show ?thesis using Cons.IH [of k]
      by (cases k) (simp_all add: min_def)
  qed
qed

lemma sort_key_take_sorted:
  fixes f :: "'a \<Rightarrow> int"
  shows "sort_key f (take m (sort_key f xs)) = take m (sort_key f xs)"
  by (rule sort_key_id_if_sorted) (simp add: take_map [symmetric] sorted_wrt_take)

lemma take_sort_snoc:
  fixes f :: "'a \<Rightarrow> int"
  shows "take m (sort_key f (take m (sort_key f xs) @ [x])) = take m (sort_key f (xs @ [x]))"
  by (simp add: sort_key_snoc sort_key_take_sorted take_insortLast_take)

lemma topK_step:
  "take m (sortDescBy key (take m (sortDescBy key xs) @ [x])) = take m (sortDescBy key (xs @ [x]))"
  by (simp add: sortDescBy_def take_sort_snoc)

lemma descendingBy_sortDescBy: "descendingBy key (sortDescBy key xs)"
proof -
  have "sorted (map (\<lambda>x. - key x) (sort_key (\<lambda>x. - key x) xs))" by simp
  then show ?thesis
    by (simp add: descendingBy_def sortDescBy_def sorted_wrt_map)
qed

lemma descendingBy_take: "descendingBy key xs \<Longrightarrow> descendingBy key (take m xs)"
  by (simp add: descendingBy_def sorted_wrt_take)

lemma updateStats_largeFiles:
  "largeFiles (updateStats g now fd st) =
     (if isLarge fd then take 100 (sortDescBy leSize (largeFiles st @ [largeEntry fd]))
      else largeFiles st)"
  by (simp add: updateStats_def Let_def isLarge_def largeEntry_def)

lemma updateStats_oldFiles:
  "oldFiles (updateStats g now fd st) =
     (if isOld (now, fd) \<and> length (oldFiles st) < 100 then oldFiles st @ [oldEntry (now, fd)]
      else oldFiles st)"
  by (simp add: updateStats_def Let_def isOld_def oldEntry_def)

lemma updateStats_sharedFiles:
  "sharedFiles (updateStats g now fd st) =
     (if isShared fd \<and> length (sharedFiles st) < 100 then sharedFiles st @ [sharedEntry fd]
      else sharedFiles st)"
  by (simp add: updateStats_def Let_def isShared_def sharedEntry_def)

lemma updateStats_errors: "errors (updateStats g now fd st) = errors st"
  by (simp add: updateStats_def Let_def)

lemma updateStats_totalFiles: "totalFiles (updateStats g now fd st) = totalFiles st + 1"
  by (simp add: updateStats_def Let_def)

lemma updateStats_duplicateCandidates:
  "duplicateCandidates (updateStats g now fd st) =
     pushCandidate (duplicateKey (fdName fd) (fdSize fd))
       \<lparr> deName = fdName fd, dePath = fdFolderPath fd, deSize = fdSize fd,
          deLastModified = fdLastModified fd, deUrl = fdUrl fd \<rparr>
       (duplicateCandidates st)"
  by (simp add: updateStats_def Let_def)

lemma cap_push:
  "(if length (take m L) < m then take m L @ [e] else take m L) = take m (L @ [e])"
  by (simp add: min_def)

lemma extracted_Nil: "extracted [] = []"
  by (simp add: extracted_def)

lemma extracted_Cons:
  "extracted (f # fs) =
     (case hfData f of None \<Rightarrow> extracted fs | Some fd \<Rightarrow> (hfNow f, fd) # extracted fs)"
  by (simp add: extracted_def split: option.split)

lemma processPage_largeFiles:
  "largeFiles st = take 100 (sortDescBy leSize L) \<Longrightarrow>
   largeFiles (snd (processPage g files (n, st))) = take 100 (sortDescBy leSize (L @ largeSeen files))"
proof (induction files arbitrary: n st L)
  case Nil
  then show ?case by (simp add: largeSeen_def extracted_Nil)
next
  case (Cons f fs)
  show ?case
  proof (cases "hfData f")
    case None
    have "largeFiles (st\<lparr>errors := errors st + 1\<rparr>) = take 100 (sortDescBy leSize L)"
      using Cons.prems by simp
    from Cons.IH [OF this] show ?thesis
      using None by (simp add: processFileForInventory_def largeSeen_def extracted_Cons)
  next
    case (Some fd)
    let ?st' = "updateStats g (hfNow f) fd st"
    let ?L' = "if isLarge fd then L @ [largeEntry fd] else L"
    have step: "largeFiles ?st' = take 100 (sortDescBy leSize ?L')"
      using Cons.prems by (simp add: updateStats_largeFiles topK_step)
    then have step2: "largeFiles (?st'\<lparr>errors := errors ?st' + 1\<rparr>) = take 100 (sortDescBy leSize ?L')"
      by simp
    have seen: "L @ largeSeen (f # fs) = ?L' @ largeSeen fs"
      using Some by (simp add: largeSeen_def extracted_Cons)
    show ?thesis
      using Some Cons.IH [OF step] Cons.IH [OF step2] seen
      by (simp add: processFileForInventory_def Let_def)
  qed
qed

lemma processPage_oldFiles:
  "oldFiles st = take 100 L \<Longrightarrow>
   oldFiles (snd (processPage g files (n, st))) = take 100 (L @ oldSeen files)"
proof (induction files arbitrary: n st L)
  case Nil
  then show ?case by (simp add: oldSeen_def extracted_Nil)
next
  case (Cons f fs)
  show ?case
  proof (cases "hfData f")
    case None
    have "oldFiles (st\<lparr>errors := errors st + 1\<rparr>) = take 100 L"
      using Cons.prems by simp
    from Cons.IH [OF this] show ?thesis
      using None by (simp add: processFileForInventory_def oldSeen_def extracted_Cons)
  next
    case (Some fd)
    let ?st' = "updateStats g (hfNow f) fd st"
    let ?L' = "if isOld (hfNow f, fd) then L @ [oldEntry (hfNow f, fd)] else L"
    have step: "oldFiles ?st' = take 100 ?L'"
      using Cons.prems cap_push [of 100 L "oldEntry (hfNow f, fd)"]
      by (simp add: updateStats_oldFiles)
    then have step2: "oldFiles (?st'\<lparr>errors := errors ?st' + 1\<rparr>) = take 100 ?L'"
      by simp
    have seen: "L @ oldSeen (f # fs) = ?L' @ oldSeen fs"
      using Some by (simp add: oldSeen_def extracted_Cons)
    show ?thesis
      using Some Cons.IH [OF step] Cons.IH [OF step2] seen
      by (simp add: processFileForInventory_def Let_def)
  qed
qed

lemma processPage_sharedFiles:
  "sharedFiles st = take 100 L \<Longrightarrow>
   sharedFiles (snd (processPage g files (n, st))) = take 100 (L @ sharedSeen files)"
proof (induction files arbitrary: n st L)
  case Nil
  then show ?case by (simp add: sharedSeen_def extracted_Nil)
next
  case (Cons f fs)
  show ?case
  proof (cases "hfData f")
    case None
    have "sharedFiles (st\<lparr>errors := errors st + 1\<rparr>) = take 100 L"
      using Cons.prems by simp
    from Cons.IH [OF this] show ?thesis
      using None by (simp add: processFileForInventory_def sharedSeen_def extracted_Cons)
  next
    case (Some fd)
    let ?st' = "updateStats g (hfNow f) fd st"
    let ?L' = "if isShared fd then L @ [sharedEntry fd] else L"
    have step: "sharedFiles ?st' = take 100 ?L'"
      using Cons.prems cap_push [of 100 L "sharedEntry fd"]
      by (simp add: updateStats_sharedFiles)
    then have step2: "sharedFiles (?st'\<lparr>errors := errors ?st' + 1\<rparr>) = take 100 ?L'"
      by simp
    have seen: "L @ sharedSeen (f # fs) = ?L' @ sharedSeen fs"
      using Some by (simp add: sharedSeen_def extracted_Cons)
    show ?thesis
      using Some Cons.IH [OF step] Cons.IH [OF step2] seen
      by (simp add: processFileForInventory_def Let_def)
  qed
qed

lemma processPage_append:
  "processPage g (xs @ ys) acc = processPage g ys (processPage g xs acc)"
proof (induction xs arbitrary: acc)
  case Nil
  then show ?case by (cases acc) simp
next
  case (Cons x xs)
  then show ?case by (cases acc) (simp split: prod.split option.split)
qed

lemma processFile_throws: "(fst (processFileForInventory g f st) = None) = (\<not> fails f)"
  by (simp add: processFileForInventory_def fails_def Let_def split: option.split)

lemma processFile_errors: "errors (snd (processFileForInventory g f st)) = errors st"
  by (simp add: processFileForInventory_def Let_def updateStats_errors split: option.split)

lemma processFile_totalFiles:
  "totalFiles (snd (processFileForInventory g f st)) = totalFiles st + length (extracted [f])"
  by (simp add: processFileForInventory_def Let_def updateStats_totalFiles extracted_Cons extracted_Nil split: option.split)

lemma processPage_counts:
  "fst (processPage g files (n, st)) = n + length (filter (\<lambda>f. \<not> fails f) files)
   \<and> errors (snd (processPage g files (n, st))) = errors st + length (filter fails files)
   \<and> totalFiles (snd (processPage g files (n, st))) = totalFiles st + length (extracted files)"
proof (induction files arbitrary: n st)
  case Nil
  then show ?case by (simp add: extracted_Nil)
next
  case (Cons f fs)
  obtain r st' where r: "processFileForInventory g f st = (r, st')" by (cases "processFileForInventory g f st")
  have e: "errors st' = errors st" using processFile_errors [of g f st] r by simp
  have t: "totalFiles st' = totalFiles st + length (extracted [f])"
    using processFile_totalFiles [of g f st] r by simp
  have th: "(r = None) = (\<not> fails f)" using processFile_throws [of g f st] r by simp
  have ex: "length (extracted (f # fs)) = length (extracted [f]) + length (extracted fs)"
    by (simp add: extracted_Cons extracted_Nil split: option.split)
  show ?case
  proof (cases r)
    case None
    then show ?thesis using r e t th ex Cons.IH [of "n + 1" st'] by simp
  next
    case (Some err)
    then show ?thesis using r e t th ex Cons.IH [of n "st'\<lparr>errors := errors st' + 1\<rparr>"] by simp
  qed
qed

lemma digit_char: "d < 10 \<Longrightarrow> (of_char (char_of (48 + d :: nat)) :: nat) = 48 + d"
  by simp

lemma digits_chars: "c \<in> set (digits n) \<Longrightarrow> 48 \<le> (of_char c :: nat) \<and> (of_char c :: nat) \<le> 57"
proof (induction n arbitrary: c rule: digits.induct)
  case (1 n)
  show ?case
  proof (cases "n < 10")
    case True
    with "1.prems" have "c = char_of (48 + n)" by (subst (asm) digits.simps) simp
    with True digit_char [of n] show ?thesis by simp
  next
    case False
    with "1.prems" have "c \<in> set (digits (n div 10)) \<or> c = char_of (48 + n mod 10)"
      by (subst (asm) digits.simps) auto
    then show ?thesis
    proof
      assume "c \<in> set (digits (n div 10))"
      with "1.IH" False show ?thesis by simp
    next
      assume "c = char_of (48 + n mod 10)"
      with digit_char [of "n mod 10"] show ?thesis by simp
    qed
  qed
qed

lemma undigits_snoc: "undigits (s @ [c]) = 10 * undigits s + (of_char c - 48)"
  by (simp add: undigits_def)

lemma undigits_digits: "undigits (digits n) = n"
proof (induction n rule: digits.induct)
  case (1 n)
  show ?case
  proof (cases "n < 10")
    case True
    then show ?thesis by (subst digits.simps) (simp add: undigits_def)
  next
    case False
    have "digits n = digits (n div 10) @ [char_of (48 + n mod 10)]"
      using False by (subst digits.simps) simp
    then show ?thesis
      using "1.IH" False digit_char [of "n mod 10"] by (simp add: undigits_snoc)
  qed
qed

lemma digits_inj: "digits m = digits n \<Longrightarrow> m = n"
  by (metis undigits_digits)

lemma underscore_not_digit: "CHR ''_'' \<notin> set (digits n)"
  using digits_chars [of "CHR ''_''" n] by auto

lemma minus_not_digit: "CHR ''-'' \<notin> set (digits n)"
  using digits_chars [of "CHR ''-''" n] by auto

lemma digits_nonempty: "digits n \<noteq> []"
  by (subst digits.simps) simp

lemma numToString_no_underscore: "CHR ''_'' \<notin> set (numToString i)"
  by (simp add: numToString_def underscore_not_digit)

lemma numToString_inj: "numToString i = numToString j \<Longrightarrow> i = j"
proof -
  assume eq: "numToString i = numToString j"
  have neg_pos: False if "a < 0" "\<not> b < 0" "numToString a = numToString b" for a b
  proof -
    from that have "CHR ''-'' # digits (nat (- a)) = digits (nat b)" by (simp add: numToString_def)
    then have "CHR ''-'' \<in> set (digits (nat b))" by (metis list.set_intros(1))
    then show False using minus_not_digit by simp
  qed
  show "i = j"
  proof (cases "i < 0"; cases "j < 0")
    assume "i < 0" "j < 0"
    with eq have "digits (nat (- i)) = digits (nat (- j))" by (simp add: numToString_def)
    then have "nat (- i) = nat (- j)" by (rule digits_inj)
    with \<open>i < 0\<close> \<open>j < 0\<close> show ?thesis by simp
  next
    assume "i < 0" "\<not> j < 0"
    with eq neg_pos [of i j] show ?thesis by simp
  next
    assume "\<not> i < 0" "j < 0"
    with eq neg_pos [of j i] show ?thesis by simp
  next
    assume "\<not> i < 0" "\<not> j < 0"
    with eq have "digits (nat i) = digits (nat j)" by (simp add: numToString_def)
    then have "nat i = nat j" by (rule digits_inj)
    with \<open>\<not> i < 0\<close> \<open>\<not> j < 0\<close> show ?thesis by simp
  qed
qed

lemma split_at_last:
  assumes "xs @ c # a = ys @ c # b" and "c \<notin> set a" and "c \<notin> set b"
  shows "xs = ys \<and> a = b"
proof -
  from assms(1) have "rev (xs @ c # a) = rev (ys @ c # b)" by simp
  then have eq: "rev a @ c # rev xs = rev b @ c # rev ys" by simp
  have "takeWhile (\<lambda>x. x \<noteq> c) (rev a @ c # rev xs) = rev a"
    using assms(2) by (subst takeWhile_append2) auto
  moreover have "takeWhile (\<lambda>x. x \<noteq> c) (rev b @ c # rev ys) = rev b"
    using assms(3) by (subst takeWhile_append2) auto
  ultimately have "rev a = rev b" using eq by simp
  with eq show ?thesis by simp
qed

lemma duplicateKey_inj:
  "(duplicateKey n s = duplicateKey n' s') = (n = n' \<and> s = s')"
proof
  assume "duplicateKey n s = duplicateKey n' s'"
  then have "n @ CHR ''_'' # numToString s = n' @ CHR ''_'' # numToString s'"
    by (simp add: duplicateKey_def)
  from split_at_last [OF this numToString_no_underscore numToString_no_underscore]
  show "n = n' \<and> s = s'" using numToString_inj by blast
next
  assume "n = n' \<and> s = s'"
  then show "duplicateKey n s = duplicateKey n' s'" by simp
qed

lemma firstOccurrences_snoc:
  "firstOccurrences (xs @ [x]) =
     (if x \<in> set (firstOccurrences xs) then firstOccurrences xs else firstOccurrences xs @ [x])"
  by (simp add: firstOccurrences_def)

lemma firstOccurrences_set: "set (firstOccurrences xs) = set xs"
  by (induction xs rule: rev_induct) (auto simp: firstOccurrences_snoc, simp add: firstOccurrences_def)

lemma firstOccurrences_distinct: "distinct (firstOccurrences xs)"
  by (induction xs rule: rev_induct) (auto simp: firstOccurrences_snoc, simp add: firstOccurrences_def)

lemma pushCandidate_grouped:
  "distinct ps \<Longrightarrow>
   pushCandidate (duplicateKey (fst p) (snd p)) e (map (\<lambda>q. (duplicateKey (fst q) (snd q), F q)) ps)
     = (if p \<in> set ps
        then map (\<lambda>q. (duplicateKey (fst q) (snd q), if q = p then F q @ [e] else F q)) ps
        else map (\<lambda>q. (duplicateKey (fst q) (snd q), F q)) ps @ [(duplicateKey (fst p) (snd p), [e])])"
proof (induction ps)
  case Nil
  then show ?case by simp
next
  case (Cons q qs)
  have k: "(duplicateKey (fst q) (snd q) = duplicateKey (fst p) (snd p)) = (q = p)"
    using duplicateKey_inj [of "fst q" "snd q" "fst p" "snd p"] by (auto simp: prod_eq_iff)
  show ?case
  proof (cases "q = p")
    case True
    with Cons.prems have "p \<notin> set qs" by simp
    then have "map (\<lambda>q. (duplicateKey (fst q) (snd q), if q = p then F q @ [e] else F q)) qs
        = map (\<lambda>q. (duplicateKey (fst q) (snd q), F q)) qs"
      by (intro map_cong) auto
    with True show ?thesis by simp
  next
    case False
    with Cons k show ?thesis by simp
  qed
qed

lemma pushCandidate_groupedByNameAndSize:
  "pushCandidate (duplicateKey (deName e) (deSize e)) e (groupedByNameAndSize es)
     = groupedByNameAndSize (es @ [e])"
proof -
  let ?ps = "firstOccurrences (map nameAndSize es)"
  let ?p = "nameAndSize e"
  have push: "pushCandidate (duplicateKey (fst ?p) (snd ?p)) e (groupedByNameAndSize es)
      = (if ?p \<in> set ?ps
         then map (\<lambda>q. (duplicateKey (fst q) (snd q),
                    if q = ?p then filter (\<lambda>e. nameAndSize e = q) es @ [e]
                    else filter (\<lambda>e. nameAndSize e = q) es)) ?ps
         else map (\<lambda>q. (duplicateKey (fst q) (snd q), filter (\<lambda>e. nameAndSize e = q) es)) ?ps
              @ [(duplicateKey (fst ?p) (snd ?p), [e])])"
    unfolding groupedByNameAndSize_def
    by (rule pushCandidate_grouped [OF firstOccurrences_distinct])
  have step: "\<And>q. filter (\<lambda>e. nameAndSize e = q) (es @ [e])
      = (if q = ?p then filter (\<lambda>e. nameAndSize e = q) es @ [e]
         else filter (\<lambda>e. nameAndSize e = q) es)"
    by auto
  show ?thesis
  proof (cases "?p \<in> set ?ps")
    case True
    then have "firstOccurrences (map nameAndSize (es @ [e])) = ?ps"
      by (simp add: firstOccurrences_snoc)
    then have "groupedByNameAndSize (es @ [e])
        = map (\<lambda>q. (duplicateKey (fst q) (snd q), filter (\<lambda>e. nameAndSize e = q) (es @ [e]))) ?ps"
      by (simp only: groupedByNameAndSize_def)
    with push True step show ?thesis by (simp add: nameAndSize_def)
  next
    case False
    then have fo: "firstOccurrences (map nameAndSize (es @ [e])) = ?ps @ [?p]"
      by (simp add: firstOccurrences_snoc)
    from False have "?p \<notin> set (map nameAndSize es)" using firstOccurrences_set [of "map nameAndSize es"] by simp
    then have "\<forall>x \<in> set es. nameAndSize x \<noteq> ?p" by (metis image_eqI set_map)
    then have none: "filter (\<lambda>e'. nameAndSize e' = ?p) es = []"
      by (simp add: filter_empty_conv)
    have old: "map (\<lambda>q. (duplicateKey (fst q) (snd q), filter (\<lambda>e. nameAndSize e = q) (es @ [e]))) ?ps
        = map (\<lambda>q. (duplicateKey (fst q) (snd q), filter (\<lambda>e. nameAndSize e = q) es)) ?ps"
      using False by (intro map_cong) auto
    have "groupedByNameAndSize (es @ [e])
        = map (\<lambda>q. (duplicateKey (fst q) (snd q), filter (\<lambda>e. nameAndSize e = q) (es @ [e]))) (?ps @ [?p])"
      using fo by (simp only: groupedByNameAndSize_def)
    also have "\<dots> = map (\<lambda>q. (duplicateKey (fst q) (snd q), filter (\<lambda>e. nameAndSize e = q) es)) ?ps
        @ [(duplicateKey (fst ?p) (snd ?p), [e])]"
      using old none by simp
    finally show ?thesis using push False by (simp add: nameAndSize_def)
  qed
qed

lemma entriesSeen_Nil: "entriesSeen [] = []"
  by (simp add: entriesSeen_def extracted_Nil)

lemma entriesSeen_Cons:
  "entriesSeen (f # fs) =
     (case hfData f of None \<Rightarrow> entriesSeen fs | Some fd \<Rightarrow> dupEntryOf fd # entriesSeen fs)"
  by (simp add: entriesSeen_def extracted_Cons split: option.split)

lemma processFile_grouped:
  "duplicateCandidates st = groupedByNameAndSize es \<Longrightarrow>
   duplicateCandidates (snd (processFileForInventory g f st))
     = groupedByNameAndSize (es @ entriesSeen [f])"
proof (cases "hfData f")
  case None
  assume "duplicateCandidates st = groupedByNameAndSize es"
  with None show ?thesis
    by (simp add: processFileForInventory_def entriesSeen_Cons entriesSeen_Nil)
next
  case (Some fd)
  assume a: "duplicateCandidates st = groupedByNameAndSize es"
  have "duplicateCandidates (updateStats g (hfNow f) fd st)
      = pushCandidate (duplicateKey (deName (dupEntryOf fd)) (deSize (dupEntryOf fd)))
          (dupEntryOf fd) (groupedByNameAndSize es)"
    using a by (simp add: updateStats_duplicateCandidates dupEntryOf_def)
  then have "duplicateCandidates (updateStats g (hfNow f) fd st)
      = groupedByNameAndSize (es @ [dupEntryOf fd])"
    by (simp only: pushCandidate_groupedByNameAndSize)
  with Some show ?thesis
    by (simp add: processFileForInventory_def Let_def entriesSeen_Cons entriesSeen_Nil)
qed

lemma processPage_grouped:
  "duplicateCandidates st = groupedByNameAndSize es \<Longrightarrow>
   duplicateCandidates (snd (processPage g files (n, st)))
     = groupedByNameAndSize (es @ entriesSeen files)"
proof (induction files arbitrary: n st es)
  case Nil
  then show ?case by (simp add: entriesSeen_Nil)
next
  case (Cons f fs)
  obtain r st' where r: "processFileForInventory g f st = (r, st')"
    by (cases "processFileForInventory g f st")
  have k: "duplicateCandidates st' = groupedByNameAndSize (es @ entriesSeen [f])"
    using processFile_grouped [OF Cons.prems, of g f] r by simp
  then have k2: "duplicateCandidates (st'\<lparr>errors := errors st' + 1\<rparr>)
      = groupedByNameAndSize (es @ entriesSeen [f])"
    by simp
  have sp: "entriesSeen (f # fs) = entriesSeen [f] @ entriesSeen fs"
    by (simp add: entriesSeen_Cons entriesSeen_Nil split: option.split)
  show ?case using r Cons.IH [OF k, of "n + 1"] Cons.IH [OF k2, of n] sp by (cases r) simp_all
qed

lemma duplicateGroups_sizes: "list_all (\<lambda>(key, files). 2 \<le> length files) (duplicateGroups st)"
proof -
  have "set (duplicateGroups st) \<subseteq> set (filter (\<lambda>(key, files). length files > 1) (duplicateCandidates st))"
    unfolding duplicateGroups_def sortDescBy_def
    by (metis set_sort set_take_subset)
  then show ?thesis by (auto simp: list_all_iff)
qed

lemma duplicateRow_two:
  "2 \<le> length (snd grp) \<Longrightarrow>
   duplicateRow grp
     = Inr \<lparr> drName = deName (hd (snd grp)), drSize = deSize (hd (snd grp)),
             drCount = length (snd grp), drLocations = map dePath (snd grp),
             drUrls = map deUrl (snd grp) \<rparr>"
  by (cases grp, cases "snd grp") auto

lemma generateDuplicatesReport_rows:
  "generateDuplicatesReport st
     = map (\<lambda>grp. Inr \<lparr> drName = deName (hd (snd grp)), drSize = deSize (hd (snd grp)),
                        drCount = length (snd grp), drLocations = map dePath (snd grp),
                        drUrls = map deUrl (snd grp) \<rparr>)
         (duplicateGroups st)"
  unfolding generateDuplicatesReport_def
  using duplicateGroups_sizes [of st]
  by (intro map_cong) (auto simp: list_all_iff duplicateRow_two)

lemma more_than_one: "(\<lambda>(key, files). 1 < length files) = (\<lambda>(key, files). 2 \<le> length (files :: 'a list))"
  by (auto simp: fun_eq_iff)

lemma sort_key_sorted_snoc:
  fixes f :: "'a \<Rightarrow> int"
  shows "sort_key f (sort_key f xs @ [x]) = sort_key f (xs @ [x])"
  by (simp add: sort_key_snoc sort_key_id_if_sorted)

lemma sortDescBy_sorted_snoc:
  "sortDescBy key (sortDescBy key xs @ [x]) = sortDescBy key (xs @ [x])"
  by (simp add: sortDescBy_def sort_key_sorted_snoc)

lemma length_sortDescBy: "length (sortDescBy key xs) = length xs"
  by (simp add: sortDescBy_def)

lemma updateCountsOptimized_lists:
  "osLargeFiles (updateCountsOptimized g fd st) = osLargeFiles st
   \<and> osOldFiles (updateCountsOptimized g fd st) = osOldFiles st
   \<and> osSharedFiles (updateCountsOptimized g fd st) = osSharedFiles st
   \<and> osErrors (updateCountsOptimized g fd st) = osErrors st
   \<and> osTotalFiles (updateCountsOptimized g fd st) = osTotalFiles st + 1"
  by (simp add: updateCountsOptimized_def Let_def)

lemma updateListsOptimized_largeFiles:
  "osLargeFiles (updateListsOptimized now fd st) =
     (if isLarge fd \<and> length (osLargeFiles st) < 100
      then sortDescBy leSize (osLargeFiles st @ [largeEntry fd])
      else osLargeFiles st)"
  by (simp add: updateListsOptimized_def Let_def isLarge_def largeEntry_def MAX_LARGE_FILES_def
      length_sortDescBy)

lemma updateListsOptimized_oldFiles:
  "osOldFiles (updateListsOptimized now fd st) =
     (if isOld (now, fd) \<and> length (osOldFiles st) < 100 then osOldFiles st @ [oldEntry (now, fd)]
      else osOldFiles st)"
  by (simp add: updateListsOptimized_def Let_def isOld_def oldEntry_def MAX_OLD_FILES_def)

lemma updateListsOptimized_sharedFiles:
  "osSharedFiles (updateListsOptimized now fd st) =
     (if isSharedOptimized fd \<and> length (osSharedFiles st) < 100
      then osSharedFiles st @ [sharedEntry fd]
      else osSharedFiles st)"
  by (simp add: updateListsOptimized_def Let_def isSharedOptimized_def sharedEntry_def
      MAX_SHARED_FILES_def)

lemma updateListsOptimized_counts:
  "osErrors (updateListsOptimized now fd st) = osErrors st
   \<and> osTotalFiles (updateListsOptimized now fd st) = osTotalFiles st"
  by (simp add: updateListsOptimized_def Let_def)

lemma listed_Nil: "listed [] = []"
  by (simp add: listed_def extracted_Nil)

lemma listed_Cons:
  "listed (f # fs) =
     (if hfRowRejected f then listed fs
      else case hfData f of None \<Rightarrow> listed fs | Some fd \<Rightarrow> (hfNow f, fd) # listed fs)"
  by (simp add: listed_def extracted_Cons split: option.split)

text \<open>What a file does to the three lists of the optimized statistics.\<close>

lemma processFileOptimized_lists:
  "processFileOptimized g f st = (r, st') \<Longrightarrow>
   osLargeFiles st = sortDescBy leSize (take 100 L) \<Longrightarrow>
   osOldFiles st = take 100 Os \<Longrightarrow>
   osSharedFiles st = take 100 Ss \<Longrightarrow>
   osLargeFiles st' = sortDescBy leSize (take 100 (L @ largeListed [f]))
   \<and> osOldFiles st' = take 100 (Os @ oldListed [f])
   \<and> osSharedFiles st' = take 100 (Ss @ sharedListed [f])"
proof -
  assume r: "processFileOptimized g f st = (r, st')"
    and l: "osLargeFiles st = sortDescBy leSize (take 100 L)"
    and ol: "osOldFiles st = take 100 Os" and sh: "osSharedFiles st = take 100 Ss"
  show ?thesis
  proof (cases "hfData f")
    case None
    with r l ol sh show ?thesis
      by (auto simp: processFileOptimized_def largeListed_def oldListed_def sharedListed_def
          listed_Cons listed_Nil)
  next
    case (Some fd)
    show ?thesis
    proof (cases "hfRowRejected f")
      case True
      with Some r l ol sh show ?thesis
        by (auto simp: processFileOptimized_def Let_def updateCountsOptimized_lists
            largeListed_def oldListed_def sharedListed_def listed_Cons listed_Nil)
    next
      case False
      let ?c = "updateCountsOptimized g fd st"
      have st': "st' = updateListsOptimized (hfNow f) fd ?c"
        using r Some False by (auto simp: processFileOptimized_def Let_def)
      have ll: "largeListed [f] = (if isLarge fd then [largeEntry fd] else [])"
        and ool: "oldListed [f] = (if isOld (hfNow f, fd) then [oldEntry (hfNow f, fd)] else [])"
        and ssl: "sharedListed [f] = (if isSharedOptimized fd then [sharedEntry fd] else [])"
        using Some False
        by (simp_all add: largeListed_def oldListed_def sharedListed_def listed_Cons listed_Nil)
      have large: "osLargeFiles st' = sortDescBy leSize (take 100 (L @ largeListed [f]))"
      proof (cases "isLarge fd \<and> length L < 100")
        case True
        then have "osLargeFiles st' = sortDescBy leSize (sortDescBy leSize L @ [largeEntry fd])"
          using l by (simp add: st' updateListsOptimized_largeFiles updateCountsOptimized_lists
              length_sortDescBy)
        moreover have "take (100 - length L) [largeEntry fd] = [largeEntry fd]"
          using True by (cases "100 - length L") auto
        ultimately show ?thesis using True by (simp add: ll sortDescBy_sorted_snoc)
      next
        case False
        then show ?thesis using l
          by (auto simp: st' updateListsOptimized_largeFiles updateCountsOptimized_lists
              length_sortDescBy ll)
      qed
      have old: "osOldFiles st' = take 100 (Os @ oldListed [f])"
      proof (cases "isOld (hfNow f, fd)")
        case True
        have "osOldFiles st' = (if length (take 100 Os) < 100
                then take 100 Os @ [oldEntry (hfNow f, fd)] else take 100 Os)"
          using ol True
          by (simp add: st' updateListsOptimized_oldFiles updateCountsOptimized_lists)
        also have "\<dots> = take 100 (Os @ [oldEntry (hfNow f, fd)])" by (rule cap_push)
        finally show ?thesis using True by (simp only: ool if_True)
      next
        case False
        then show ?thesis using ol
          by (simp add: st' updateListsOptimized_oldFiles updateCountsOptimized_lists ool)
      qed
      have shared: "osSharedFiles st' = take 100 (Ss @ sharedListed [f])"
      proof (cases "isSharedOptimized fd")
        case True
        have "osSharedFiles st' = (if length (take 100 Ss) < 100
                then take 100 Ss @ [sharedEntry fd] else take 100 Ss)"
          using sh True
          by (simp add: st' updateListsOptimized_sharedFiles updateCountsOptimized_lists)
        also have "\<dots> = take 100 (Ss @ [sharedEntry fd])" by (rule cap_push)
        finally show ?thesis using True by (simp only: ssl if_True)
      next
        case False
        then show ?thesis using sh
          by (simp add: st' updateListsOptimized_sharedFiles updateCountsOptimized_lists ssl)
      qed
      from large old shared show ?thesis by simp
    qed
  qed
qed

lemma listed_split:
  "largeListed (f # fs) = largeListed [f] @ largeListed fs
   \<and> oldListed (f # fs) = oldListed [f] @ oldListed fs
   \<and> sharedListed (f # fs) = sharedListed [f] @ sharedListed fs"
  by (simp add: largeListed_def oldListed_def sharedListed_def listed_Cons listed_Nil
      split: option.split)

lemma processFileOptimized_throws: "(fst (processFileOptimized g f st) = None) = (\<not> fails f)"
  by (simp add: processFileOptimized_def fails_def Let_def split: option.split)

lemma processFileOptimized_counts:
  "osErrors (snd (processFileOptimized g f st)) = osErrors st
   \<and> osTotalFiles (snd (processFileOptimized g f st)) = osTotalFiles st + length (extracted [f])"
  by (simp add: processFileOptimized_def Let_def updateCountsOptimized_lists
      updateListsOptimized_counts extracted_Cons extracted_Nil split: option.split)

lemma processPageOptimized_lists:
  "osLargeFiles st = sortDescBy leSize (take 100 L) \<Longrightarrow>
   osOldFiles st = take 100 Os \<Longrightarrow>
   osSharedFiles st = take 100 Ss \<Longrightarrow>
   osLargeFiles (snd (snd (processPageOptimized g files (n, st))))
     = sortDescBy leSize (take 100 (L @ largeListed (handled n files)))
   \<and> osOldFiles (snd (snd (processPageOptimized g files (n, st))))
       = take 100 (Os @ oldListed (handled n files))
   \<and> osSharedFiles (snd (snd (processPageOptimized g files (n, st))))
       = take 100 (Ss @ sharedListed (handled n files))"
proof (induction files arbitrary: n st L Os Ss)
  case Nil
  then show ?case
    by (simp add: largeListed_def oldListed_def sharedListed_def listed_Nil)
next
  case (Cons f fs)
  obtain r st' where r: "processFileOptimized g f st = (r, st')"
    by (cases "processFileOptimized g f st")
  note step = processFileOptimized_lists [OF r Cons.prems]
  have s1: "osLargeFiles st' = sortDescBy leSize (take 100 (L @ largeListed [f]))"
    and s2: "osOldFiles st' = take 100 (Os @ oldListed [f])"
    and s3: "osSharedFiles st' = take 100 (Ss @ sharedListed [f])"
    using step by simp_all
  let ?st'' = "st'\<lparr>osErrors := osErrors st' + 1\<rparr>"
  have e1: "osLargeFiles ?st'' = sortDescBy leSize (take 100 (L @ largeListed [f]))"
    and e2: "osOldFiles ?st'' = take 100 (Os @ oldListed [f])"
    and e3: "osSharedFiles ?st'' = take 100 (Ss @ sharedListed [f])"
    using step by simp_all
  have th: "(r = None) = (\<not> fails f)"
    using processFileOptimized_throws [of g f st] r by simp
  show ?case
  proof (cases r)
    case None
    then have nf: "\<not> fails f" using th by simp
    show ?thesis
    proof (cases "(n + 1) mod PROGRESS_SAVE_INTERVAL = 0 \<and> hfProgressRejected f")
      case True
      show ?thesis
      proof (cases "hfNameThrows f")
        case nt: True
        with None True nf r s1 s2 s3 show ?thesis by simp
      next
        case nt: False
        from Cons.IH [OF e1 e2 e3, of "n + 1"] listed_split [of f "handled (n + 1) fs"]
          None True nf nt r
        show ?thesis by simp
      qed
    next
      case False
      from Cons.IH [OF s1 s2 s3, of "n + 1"] listed_split [of f "handled (n + 1) fs"]
        None False nf r
      show ?thesis by auto
    qed
  next
    case (Some err)
    then have ff: "fails f" using th by simp
    show ?thesis
    proof (cases "hfNameThrows f")
      case True
      with Some ff r s1 s2 s3 show ?thesis by simp
    next
      case False
      from Cons.IH [OF e1 e2 e3, of n] listed_split [of f "handled n fs"] Some False ff r
      show ?thesis by simp
    qed
  qed
qed

text \<open>
  C2, as the claim states it, fails on \<open>oldFiles\<close>: a file 400 days old followed by one 800
  days old leaves the list in arrival order, ascending by age.
\<close>

theorem oldFiles_not_sorted:
  "map oeAgeInDays (oldFiles (snd (processPage plainYear twoOldFiles (0, initializeStats 0 None))))
     = [400, 800]
   \<and> \<not> descendingBy oeAgeInDays
         (oldFiles (snd (processPage plainYear twoOldFiles (0, initializeStats 0 None))))"
  by code_simp

text \<open>
  C2, amended. After a run over any files from fresh statistics, every bounded list has
  at most 100 entries. In the complete inventory \<open>largeFiles\<close> is appended to, sorted
  descending by size and cut to 100 on every large file, so it is sorted and holds the
  100 largest of the large files seen; \<open>oldFiles\<close> and \<open>sharedFiles\<close> are appended to
  while they have fewer than 100 entries and are never sorted, so they hold the first
  100 old and shared files in arrival order. In the optimized inventory \<open>largeFiles\<close>
  is sorted descending by size, and \<open>oldFiles\<close> and \<open>sharedFiles\<close> hold the first 100
  in arrival order of the files that its loop gets to. \<open>highRiskFiles\<close> has at most 100
  entries and is sorted descending by risk score.
\<close>

theorem bounded_lists_after_run:
  "largeFiles (snd (processPage g files (0, initializeStats t None)))
     = take 100 (sortDescBy leSize (largeSeen files))
   \<and> descendingBy leSize (largeFiles (snd (processPage g files (0, initializeStats t None))))
   \<and> length (largeFiles (snd (processPage g files (0, initializeStats t None)))) \<le> 100
   \<and> oldFiles (snd (processPage g files (0, initializeStats t None))) = take 100 (oldSeen files)
   \<and> length (oldFiles (snd (processPage g files (0, initializeStats t None)))) \<le> 100
   \<and> sharedFiles (snd (processPage g files (0, initializeStats t None)))
       = take 100 (sharedSeen files)
   \<and> length (sharedFiles (snd (processPage g files (0, initializeStats t None)))) \<le> 100
   \<and> descendingBy leSize
        (osLargeFiles (snd (snd (processPageOptimized g files (0, initializeStatsInSheet t)))))
   \<and> length (osLargeFiles (snd (snd (processPageOptimized g files (0, initializeStatsInSheet t)))))
       \<le> 100
   \<and> osOldFiles (snd (snd (processPageOptimized g files (0, initializeStatsInSheet t))))
       = take 100 (oldListed (handled 0 files))
   \<and> osSharedFiles (snd (snd (processPageOptimized g files (0, initializeStatsInSheet t))))
       = take 100 (sharedListed (handled 0 files))
   \<and> length (ssHighRiskFiles (processSharedFiles fds (initializeSharedFilesStats None))) \<le> 100
   \<and> descendingBy hrRiskScore
        (ssHighRiskFiles (processSharedFiles fds (initializeSharedFilesStats None)))"
proof -
  let ?st = "snd (processPage g files (0, initializeStats t None))"
  let ?os = "snd (snd (processPageOptimized g files (0, initializeStatsInSheet t)))"
  have l: "largeFiles ?st = take 100 (sortDescBy leSize (largeSeen files))"
    using processPage_largeFiles [of "initializeStats t None" "[]" g files 0]
    by (simp add: initializeStats_def sortDescBy_def)
  have o: "oldFiles ?st = take 100 (oldSeen files)"
    using processPage_oldFiles [of "initializeStats t None" "[]" g files 0]
    by (simp add: initializeStats_def)
  have s: "sharedFiles ?st = take 100 (sharedSeen files)"
    using processPage_sharedFiles [of "initializeStats t None" "[]" g files 0]
    by (simp add: initializeStats_def)
  have opt: "osLargeFiles ?os = sortDescBy leSize (take 100 (largeListed (handled 0 files)))
      \<and> osOldFiles ?os = take 100 (oldListed (handled 0 files))
      \<and> osSharedFiles ?os = take 100 (sharedListed (handled 0 files))"
    using processPageOptimized_lists [of "initializeStatsInSheet t" "[]" "[]" "[]" g files 0]
    by (simp add: initializeStatsInSheet_def sortDescBy_def)
  have h: "ssHighRiskFiles (processSharedFiles fds (initializeSharedFilesStats None)) = []"
    by (simp add: processSharedFiles_highRisk initializeSharedFilesStats_def)
  have d1: "descendingBy leSize (largeFiles ?st)"
    unfolding l by (intro descendingBy_take descendingBy_sortDescBy)
  have d2: "descendingBy leSize (osLargeFiles ?os)"
    using opt by (simp add: descendingBy_sortDescBy)
  have d3: "descendingBy hrRiskScore []" by (simp add: descendingBy_def)
  show ?thesis
    using l o s opt h d1 d2 d3 by (simp add: length_sortDescBy)
qed

lemma processPageOptimized_handler_throws:
  "fails f \<Longrightarrow> hfNameThrows f \<Longrightarrow>
   processPageOptimized g (f # fs) (n, st) = (Some HostError, n, snd (processFileOptimized g f st))"
proof -
  assume a: "fails f" and b: "hfNameThrows f"
  obtain r st' where r: "processFileOptimized g f st = (r, st')"
    by (cases "processFileOptimized g f st")
  with a processFileOptimized_throws [of g f st] have "r \<noteq> None" by simp
  then obtain err where "r = Some err" by auto
  with r b show ?thesis by simp
qed

text \<open>
  C8. The claim holds of the loop of the complete inventory, whose handler only logs the
  error and counts it (\<open>processPage_append\<close>, \<open>processPage_counts\<close>: every file is counted
  as processed or as an error, and the files after a failing one are aggregated). It
  fails in the optimized inventory: the handler builds its message from
  \<open>file.getName()\<close> before it counts the error. On a page of a file that has become
  inaccessible, followed by \<open>a.txt\<close>, the complete inventory counts one error and
  aggregates \<open>a.txt\<close>; in the optimized inventory the handler throws, the exception
  leaves the loop and the run, the error is not counted and \<open>a.txt\<close> is not processed.
\<close>

theorem optimized_handler_aborts_batch:
  "fst (processPageOptimized plainYear [vanishedFile, plainFile ''a.txt'' 100 1]
          (0, initializeStatsInSheet 0)) = Some HostError
   \<and> osErrors (snd (snd (processPageOptimized plainYear [vanishedFile, plainFile ''a.txt'' 100 1]
          (0, initializeStatsInSheet 0)))) = 0
   \<and> osTotalFiles (snd (snd (processPageOptimized plainYear [vanishedFile, plainFile ''a.txt'' 100 1]
          (0, initializeStatsInSheet 0)))) = 0
   \<and> fst (processPage plainYear [vanishedFile, plainFile ''a.txt'' 100 1]
          (0, initializeStats 0 None)) = 1
   \<and> errors (snd (processPage plainYear [vanishedFile, plainFile ''a.txt'' 100 1]
          (0, initializeStats 0 None))) = 1
   \<and> totalFiles (snd (processPage plainYear [vanishedFile, plainFile ''a.txt'' 100 1]
          (0, initializeStats 0 None))) = 1"
proof -
  have f: "fails vanishedFile" and t: "hfNameThrows vanishedFile"
    by (simp_all add: fails_def vanishedFile_def)
  have nf: "\<not> fails (plainFile ''a.txt'' 100 1)"
    by (simp add: fails_def plainFile_def)
  have ex: "extracted [vanishedFile, plainFile ''a.txt'' 100 1]
      = [(hfNow (plainFile ''a.txt'' 100 1), the (hfData (plainFile ''a.txt'' 100 1)))]"
    by (simp add: extracted_Cons extracted_Nil vanishedFile_def plainFile_def)
  have opt: "processPageOptimized plainYear [vanishedFile, plainFile ''a.txt'' 100 1]
        (0, initializeStatsInSheet 0)
      = (Some HostError, 0, snd (processFileOptimized plainYear vanishedFile (initializeStatsInSheet 0)))"
    by (rule processPageOptimized_handler_throws [OF f t])
  have cnt: "osErrors (snd (processFileOptimized plainYear vanishedFile (initializeStatsInSheet 0))) = 0
      \<and> osTotalFiles (snd (processFileOptimized plainYear vanishedFile (initializeStatsInSheet 0))) = 0"
    using processFileOptimized_counts [of plainYear vanishedFile "initializeStatsInSheet 0"]
    by (simp add: initializeStatsInSheet_def extracted_Cons extracted_Nil vanishedFile_def)
  from processPage_counts [of plainYear "[vanishedFile, plainFile ''a.txt'' 100 1]" 0
      "initializeStats 0 None"] f nf ex
  have com: "fst (processPage plainYear [vanishedFile, plainFile ''a.txt'' 100 1]
          (0, initializeStats 0 None)) = 1
      \<and> errors (snd (processPage plainYear [vanishedFile, plainFile ''a.txt'' 100 1]
          (0, initializeStats 0 None))) = 1
      \<and> totalFiles (snd (processPage plainYear [vanishedFile, plainFile ''a.txt'' 100 1]
          (0, initializeStats 0 None))) = 1"
    by (simp add: initializeStats_def)
  from opt cnt com show ?thesis by simp
qed

text \<open>
  C9. Candidates are grouped under the key \<open>name_size\<close>, which determines the name and
  the size. After a run over any files the candidates are the entries of the files whose
  data was extracted, grouped by name and size: one group for each pair of a name and a
  size, in the order of their first file, holding all the entries with that name and
  size in listing order. The duplicates report has one row for each of the groups of at
  least two files, ordered by descending number of files and cut to
  \<open>MAX_DUPLICATE_GROUPS\<close>; the row carries the name and the size of the group, the number
  of its files, and their locations and links. For any statistics the report only has
  groups of at least two files. The three records of the claim give one row, for \<open>a.txt\<close>
  with two files, and none for \<open>b.txt\<close>.
\<close>

theorem duplicate_grouping:
  "(duplicateKey name sz = duplicateKey name' sz') = (name = name' \<and> sz = sz')
   \<and> duplicateCandidates (snd (processPage g files (0, initializeStats t None)))
       = groupedByNameAndSize (entriesSeen files)
   \<and> generateDuplicatesReport (snd (processPage g files (0, initializeStats t None)))
       = map (\<lambda>grp. Inr \<lparr> drName = deName (hd (snd grp)), drSize = deSize (hd (snd grp)),
                          drCount = length (snd grp), drLocations = map dePath (snd grp),
                          drUrls = map deUrl (snd grp) \<rparr>)
           (take MAX_DUPLICATE_GROUPS
             (sortDescBy (\<lambda>(key, files). int (length files))
               (filter (\<lambda>(key, files). 2 \<le> length files)
                 (groupedByNameAndSize (entriesSeen files)))))
   \<and> list_all (\<lambda>(key, files). 2 \<le> length files) (duplicateGroups st)
   \<and> generateDuplicatesReport (snd (processPage plainYear threeRecords (0, initializeStats 0 None)))
       = [Inr \<lparr> drName = ''a.txt'', drSize = 100, drCount = 2, drLocations = [''Root'', ''Root''],
                 drUrls = [''https://drive.example/f'', ''https://drive.example/f''] \<rparr>]"
proof -
  let ?st = "snd (processPage g files (0, initializeStats t None))"
  have "duplicateCandidates (initializeStats t None) = groupedByNameAndSize []"
    by (simp add: initializeStats_def groupedByNameAndSize_def firstOccurrences_def)
  from processPage_grouped [OF this, of g files 0]
  have c: "duplicateCandidates ?st = groupedByNameAndSize (entriesSeen files)" by simp
  have d: "duplicateGroups ?st
      = take MAX_DUPLICATE_GROUPS
          (sortDescBy (\<lambda>(key, files). int (length files))
            (filter (\<lambda>(key, files). 2 \<le> length files)
              (groupedByNameAndSize (entriesSeen files))))"
    by (simp only: duplicateGroups_def c more_than_one)
  have r: "generateDuplicatesReport ?st
      = map (\<lambda>grp. Inr \<lparr> drName = deName (hd (snd grp)), drSize = deSize (hd (snd grp)),
                         drCount = length (snd grp), drLocations = map dePath (snd grp),
                         drUrls = map deUrl (snd grp) \<rparr>)
          (take MAX_DUPLICATE_GROUPS
            (sortDescBy (\<lambda>(key, files). int (length files))
              (filter (\<lambda>(key, files). 2 \<le> length files)
                (groupedByNameAndSize (entriesSeen files)))))"
    using generateDuplicatesReport_rows [of ?st] d by simp
  have ex: "generateDuplicatesReport
       (snd (processPage plainYear threeRecords (0, initializeStats 0 None)))
     = [Inr \<lparr> drName = ''a.txt'', drSize = 100, drCount = 2, drLocations = [''Root'', ''Root''],
               drUrls = [''https://drive.example/f'', ''https://drive.example/f''] \<rparr>]"
    by code_simp
  from duplicateKey_inj [of name sz name' sz'] c r duplicateGroups_sizes [of st] ex
  show ?thesis by blast
qed

lemma toUpperCase_empty: "(toUpperCase s = []) = (s = [])"
  by (simp add: toUpperCase_def)

lemma lowerChar_not_upper:
  "\<not> (65 \<le> (of_char (lowerChar c) :: nat) \<and> (of_char (lowerChar c) :: nat) \<le> 90)"
  by (auto simp: lowerChar_def Let_def)

lemma toLowerCase_not_upper:
  "c \<in> set (toLowerCase s) \<Longrightarrow> \<not> (65 \<le> (of_char c :: nat) \<and> (of_char c :: nat) \<le> 90)"
  using lowerChar_not_upper by (auto simp: toLowerCase_def)

lemma inherited_lower:
  assumes "k \<in> set objectPrototypeKeys" and "k = toLowerCase s"
  shows "k = ''constructor'' \<or> k = ''__proto__''"
proof -
  have up: "\<And>c. c \<in> set k \<Longrightarrow> \<not> (65 \<le> (of_char c :: nat) \<and> (of_char c :: nat) \<le> 90)"
    using assms(2) toLowerCase_not_upper by blast
  from assms(1) consider "k = ''constructor''" | "k = ''__proto__''"
    | "CHR ''G'' \<in> set k" | "CHR ''S'' \<in> set k" | "CHR ''O'' \<in> set k" | "CHR ''P'' \<in> set k"
    | "CHR ''I'' \<in> set k" | "CHR ''L'' \<in> set k"
    by (auto simp: objectPrototypeKeys_def)
  then show ?thesis
  proof cases
    case 3 then show ?thesis using up [of "CHR ''G''"] by simp
  next
    case 4 then show ?thesis using up [of "CHR ''S''"] by simp
  next
    case 5 then show ?thesis using up [of "CHR ''O''"] by simp
  next
    case 6 then show ?thesis using up [of "CHR ''P''"] by simp
  next
    case 7 then show ?thesis using up [of "CHR ''I''"] by simp
  next
    case 8 then show ?thesis using up [of "CHR ''L''"] by simp
  qed simp_all
qed

lemma fileTypeWith_label:
  assumes "list_all (\<lambda>(k, v). v \<noteq> []) table"
    and "toLowerCase (lastSegment n) \<noteq> ''constructor''"
    and "toLowerCase (lastSegment n) \<noteq> ''__proto__''"
  shows "\<exists>l. fileTypeWith table n m = JStr l \<and> l \<noteq> []"
proof (cases "startsWith m googlePrefix")
  case True
  then show ?thesis by (simp add: fileTypeWith_def Let_def)
next
  case False
  let ?e = "toLowerCase (lastSegment n)"
  show ?thesis
  proof (cases "map_of table ?e")
    case (Some v)
    then have "(?e, v) \<in> set table" by (rule map_of_SomeD)
    with assms(1) have "v \<noteq> []" by (auto simp: list_all_iff)
    with Some False show ?thesis by (simp add: fileTypeWith_def Let_def objectGet_def)
  next
    case None
    have "?e \<notin> set objectPrototypeKeys"
      using inherited_lower [of ?e "lastSegment n"] assms(2,3) by blast
    with None False show ?thesis
      by (simp add: fileTypeWith_def Let_def objectGet_def toUpperCase_empty)
  qed
qed

lemma getFileType_label:
  "toLowerCase (lastSegment n) \<noteq> ''constructor'' \<Longrightarrow>
   toLowerCase (lastSegment n) \<noteq> ''__proto__'' \<Longrightarrow>
   \<exists>l. getFileType n m = JStr l \<and> l \<noteq> []"
  unfolding getFileType_def
  by (rule fileTypeWith_label) (simp_all add: typeMap_def)

lemma getFileTypeSimple_label:
  "toLowerCase (lastSegment n) \<noteq> ''constructor'' \<Longrightarrow>
   toLowerCase (lastSegment n) \<noteq> ''__proto__'' \<Longrightarrow>
   \<exists>l. getFileTypeSimple n m = JStr l \<and> l \<noteq> []"
  unfolding getFileTypeSimple_def
  by (rule fileTypeWith_label) (simp_all add: typeMapSimple_def)

text \<open>
  C10. The claim asks for a label, and for the upper-cased extension where the
  extension is not in the table. For the name \<open>notes.constructor\<close> the extension is
  \<open>constructor\<close>, which is not in the table; but \<open>typeMap\<close> is an object literal, and
  \<open>typeMap['constructor']\<close> is the function \<open>Object\<close> that every object inherits from
  \<open>Object.prototype\<close>. It is truthy, so \<open>getFileType\<close> returns that function, not the
  string \<open>CONSTRUCTOR\<close>. \<open>getFileTypeSimple\<close> does the same, for instance on the name
  \<open>__proto__\<close>. For every other name both return a non-empty string
  (\<open>getFileType_label\<close>, \<open>getFileTypeSimple_label\<close>).
\<close>

theorem getFileType_returns_inherited_member:
  "toLowerCase (lastSegment ''notes.constructor'') = ''constructor''
   \<and> map_of typeMap ''constructor'' = None
   \<and> getFileType ''notes.constructor'' ''text/plain'' = JInherited ''constructor''
   \<and> getFileType ''notes.constructor'' ''text/plain'' \<noteq> JStr ''CONSTRUCTOR''
   \<and> getFileTypeSimple ''__proto__'' ''text/plain'' = JInherited ''__proto__''"
  by code_simp

lemma collectFiles_short:
  "collectFiles fs c b acc = (page, rest) \<Longrightarrow> length acc = c \<Longrightarrow> c \<le> b \<Longrightarrow>
   length page \<le> b \<and> (length page < b \<longrightarrow> rest = [])"
proof (induction fs arbitrary: c acc)
  case Nil
  then show ?case by auto
next
  case (Cons f fs)
  show ?case
  proof (cases "c < b")
    case True
    show ?thesis
    proof (cases "shouldIncludeFile f")
      case inc: True
      with True Cons.prems have "collectFiles fs (c + 1) b (acc @ [f]) = (page, rest)" by simp
      from Cons.IH [OF this] True Cons.prems show ?thesis by simp
    next
      case False
      with True Cons.prems have "collectFiles fs c b acc = (page, rest)" by simp
      from Cons.IH [OF this] Cons.prems show ?thesis by simp
    qed
  next
    case False
    with Cons.prems show ?thesis by auto
  qed
qed

lemma getFilesToProcess_short:
  "getFilesToProcess h tok b = (page, rest) \<Longrightarrow> length page \<le> b \<and> (length page < b \<longrightarrow> rest = [])"
  using collectFiles_short [of _ 0 b "[]" page rest]
  by (simp add: getFilesToProcess_def Let_def)

lemma runInventoryBatch_empty_page:
  "getFilesToProcess h (spContinuationToken (wProps w)) BATCH_SIZE = ([], iterator) \<Longrightarrow>
   runInventoryBatch h w =
     (Inr \<lparr> processedCount = 0, hasMore = False \<rparr>,
      w\<lparr>wStatus := Some COMPLETE,
        wFinalReports := Some (initializeStats (hNow h) (spInventoryStats (wProps w))),
        wProps := clearedProperties\<rparr>)"
  by (simp add: runInventoryBatch_def Let_def)

lemma runInventoryBatch_save_fails:
  assumes "getFilesToProcess h (spContinuationToken (wProps w)) BATCH_SIZE = (files, iterator)"
    and "files \<noteq> []"
    and "hStringifyLength h (snd (processPage (hGetFullYear h) files
           (0, initializeStats (hNow h) (spInventoryStats (wProps w))))) > hQuota h"
  shows "runInventoryBatch h w = (Inl QuotaExceeded, w\<lparr>wStatus := Some RUNNING\<rparr>)"
proof -
  obtain count stats' where
    "processPage (hGetFullYear h) files
       (0, initializeStats (hNow h) (spInventoryStats (wProps w))) = (count, stats')"
    by (cases "processPage (hGetFullYear h) files
       (0, initializeStats (hNow h) (spInventoryStats (wProps w)))")
  with assms show ?thesis by (simp add: runInventoryBatch_def Let_def)
qed

lemma runInventoryBatch_more:
  "getFilesToProcess h (spContinuationToken (wProps w)) BATCH_SIZE = (files, iterator) \<Longrightarrow>
   files \<noteq> [] \<Longrightarrow> iterator \<noteq> [] \<Longrightarrow>
   processPage (hGetFullYear h) files
       (0, initializeStats (hNow h) (spInventoryStats (wProps w))) = (count, stats') \<Longrightarrow>
   \<not> hStringifyLength h stats' > hQuota h \<Longrightarrow>
   runInventoryBatch h w =
     (Inr \<lparr> processedCount = count, hasMore = True \<rparr>,
      w\<lparr>wStatus := None,
        wProps := (wProps w)\<lparr>spInventoryStats := Some stats',
                             spContinuationToken := Some iterator\<rparr>\<rparr>)"
  by (simp add: runInventoryBatch_def Let_def)

lemma runInventoryBatch_last:
  "getFilesToProcess h (spContinuationToken (wProps w)) BATCH_SIZE = (files, []) \<Longrightarrow>
   files \<noteq> [] \<Longrightarrow>
   processPage (hGetFullYear h) files
       (0, initializeStats (hNow h) (spInventoryStats (wProps w))) = (count, stats') \<Longrightarrow>
   \<not> hStringifyLength h stats' > hQuota h \<Longrightarrow>
   runInventoryBatch h w =
     (Inr \<lparr> processedCount = count, hasMore = False \<rparr>,
      w\<lparr>wStatus := Some COMPLETE, wFinalReports := Some stats',
        wProps := clearedProperties\<rparr>)"
  by (simp add: runInventoryBatch_def Let_def)

lemma runInventoryBatch_status:
  "wStatus (snd (runInventoryBatch h w)) = Some RUNNING
   \<or> wStatus (snd (runInventoryBatch h w)) = Some COMPLETE
   \<or> wStatus (snd (runInventoryBatch h w)) = None"
  by (simp add: runInventoryBatch_def Let_def split: prod.split)

lemma photoDrive_page:
  "getDocumentFilesToProcess photoDrive None DOCUMENT_BATCH_SIZE = ([reportDoc], [photo])"
  by code_simp

lemma documentBatchOutcome_cases:
  "(documentBatchOutcome drive tok = Finished)
     = (fst (getDocumentFilesToProcess drive tok DOCUMENT_BATCH_SIZE) = []
        \<or> snd (getDocumentFilesToProcess drive tok DOCUMENT_BATCH_SIZE) = [])
   \<and> (documentBatchOutcome drive tok = Finished
        \<or> documentBatchOutcome drive tok
            = Continue (snd (getDocumentFilesToProcess drive tok DOCUMENT_BATCH_SIZE)))"
  by (simp add: documentBatchOutcome_def Let_def split: prod.split)

lemma runInventoryBatch_decision:
  assumes g: "getFilesToProcess h (spContinuationToken (wProps w)) BATCH_SIZE = (files, iterator)"
    and r: "fst (runInventoryBatch h w) = Inr res"
  shows "(wStatus (snd (runInventoryBatch h w)) = Some COMPLETE) = (files = [] \<or> iterator = [])
    \<and> (files = [] \<or> iterator = []) = (length files < BATCH_SIZE \<or> iterator = [])
    \<and> (files = [] \<or> iterator = [] \<longrightarrow>
          wProps (snd (runInventoryBatch h w)) = clearedProperties
          \<and> wFinalReports (snd (runInventoryBatch h w)) \<noteq> None \<and> \<not> hasMore res)
    \<and> (\<not> (files = [] \<or> iterator = []) \<longrightarrow>
          spContinuationToken (wProps (snd (runInventoryBatch h w))) = Some iterator
          \<and> wStatus (snd (runInventoryBatch h w)) = None \<and> hasMore res)"
proof -
  have short: "length files < BATCH_SIZE \<longrightarrow> iterator = []"
    using getFilesToProcess_short [OF g] by simp
  have pos: "0 < BATCH_SIZE" by (simp add: BATCH_SIZE_def)
  show ?thesis
  proof (cases "files = []")
    case True
    with short pos have it: "iterator = []" by simp
    from runInventoryBatch_empty_page [of h w iterator] g True r it show ?thesis by auto
  next
    case False
    obtain count stats' where p:
      "processPage (hGetFullYear h) files
         (0, initializeStats (hNow h) (spInventoryStats (wProps w))) = (count, stats')"
      by (cases "processPage (hGetFullYear h) files
         (0, initializeStats (hNow h) (spInventoryStats (wProps w)))")
    have q: "\<not> hStringifyLength h stats' > hQuota h"
    proof
      assume "hStringifyLength h stats' > hQuota h"
      with runInventoryBatch_save_fails [OF g False] p r show False by simp
    qed
    show ?thesis
    proof (cases "iterator = []")
      case True
      from runInventoryBatch_last [of h w files count stats'] g False True p q r
      show ?thesis by auto
    next
      case it: False
      from runInventoryBatch_more [OF g False it p q] r short False it
      show ?thesis by auto
    qed
  qed
qed

text \<open>
  C6, as the claim states it, fails in the document inventory: of a drive with one
  document followed by 500 photos the first page holds the document only, since the scan
  stops after \<open>maxCheck = 500\<close> files; the page has fewer than \<open>BATCH_SIZE = 50\<close> items,
  and the batch stores the token and continues.
\<close>

theorem short_page_continues:
  "length (fst (getDocumentFilesToProcess photoDrive None DOCUMENT_BATCH_SIZE)) = 1
   \<and> DOCUMENT_BATCH_SIZE = 50
   \<and> documentBatchOutcome photoDrive None = Continue [photo]"
  using photoDrive_page by (simp add: documentBatchOutcome_def DOCUMENT_BATCH_SIZE_def)

text \<open>
  C6, amended. A batch that returns ends \<open>COMPLETE\<close> (final reports written,
  properties deleted) exactly when its page is empty or the iterator has no further
  file; otherwise it stores the token and reports that there is more, and the status
  cell is empty, as \<open>updateOverviewSheet\<close> has cleared it. In the complete inventory a
  page shorter than \<open>BATCH_SIZE\<close> only occurs when the iterator is exhausted, so there
  the condition is the claim's. In the document inventory the batch finishes exactly
  when the page is empty or the iterator is exhausted, and otherwise continues with the
  token, whatever the length of the page.
\<close>

theorem completion_decision:
  assumes "getFilesToProcess h (spContinuationToken (wProps w)) BATCH_SIZE = (files, iterator)"
    and "fst (runInventoryBatch h w) = Inr res"
  shows "(wStatus (snd (runInventoryBatch h w)) = Some COMPLETE) = (files = [] \<or> iterator = [])
    \<and> (files = [] \<or> iterator = []) = (length files < BATCH_SIZE \<or> iterator = [])
    \<and> (files = [] \<or> iterator = [] \<longrightarrow>
          wProps (snd (runInventoryBatch h w)) = clearedProperties
          \<and> wFinalReports (snd (runInventoryBatch h w)) \<noteq> None \<and> \<not> hasMore res)
    \<and> (\<not> (files = [] \<or> iterator = []) \<longrightarrow>
          spContinuationToken (wProps (snd (runInventoryBatch h w))) = Some iterator
          \<and> wStatus (snd (runInventoryBatch h w)) = None \<and> hasMore res)
    \<and> (documentBatchOutcome drive tok = Finished)
         = (fst (getDocumentFilesToProcess drive tok DOCUMENT_BATCH_SIZE) = []
            \<or> snd (getDocumentFilesToProcess drive tok DOCUMENT_BATCH_SIZE) = [])
    \<and> (documentBatchOutcome drive tok = Finished
         \<or> documentBatchOutcome drive tok
             = Continue (snd (getDocumentFilesToProcess drive tok DOCUMENT_BATCH_SIZE)))"
  using runInventoryBatch_decision [OF assms] documentBatchOutcome_cases [of drive tok]
  by (elim conjE) (intro conjI; assumption)

theorem completion_decision_witness:
  "getFilesToProcess roomyHost (spContinuationToken (wProps freshWorld)) BATCH_SIZE
     = (threeRecords, [])
   \<and> fst (runInventoryBatch roomyHost freshWorld) = Inr \<lparr> processedCount = 3, hasMore = False \<rparr>
   \<and> wStatus (snd (runInventoryBatch roomyHost freshWorld)) = Some COMPLETE
   \<and> wProps (snd (runInventoryBatch roomyHost freshWorld)) = clearedProperties
   \<and> documentBatchOutcome photoDrive None \<noteq> Finished"
proof -
  have h1: "getFilesToProcess roomyHost (spContinuationToken (wProps freshWorld)) BATCH_SIZE
              = (threeRecords, [])"
    by code_simp
  obtain count stats' where p:
    "processPage (hGetFullYear roomyHost) threeRecords
       (0, initializeStats (hNow roomyHost) (spInventoryStats (wProps freshWorld))) = (count, stats')"
    by (cases "processPage (hGetFullYear roomyHost) threeRecords
       (0, initializeStats (hNow roomyHost) (spInventoryStats (wProps freshWorld)))")
  have n1: "length (filter (\<lambda>f. \<not> fails f) threeRecords) = 3" by code_simp
  have n2: "length (extracted threeRecords) = 3" by code_simp
  have n3: "totalFiles (initializeStats (hNow roomyHost) (spInventoryStats (wProps freshWorld))) = 0"
    by (simp add: initializeStats_def freshWorld_def clearedProperties_def)
  from processPage_counts [of "hGetFullYear roomyHost" threeRecords 0
      "initializeStats (hNow roomyHost) (spInventoryStats (wProps freshWorld))"] p n1 n2 n3
  have c: "count = 3" and t: "totalFiles stats' = 3" by simp_all
  have q: "\<not> hStringifyLength roomyHost stats' > hQuota roomyHost"
    using t by (simp add: roomyHost_def tinyQuotaHost_def)
  have ne: "threeRecords \<noteq> []" by (simp add: threeRecords_def)
  have h2: "fst (runInventoryBatch roomyHost freshWorld)
              = Inr \<lparr> processedCount = 3, hasMore = False \<rparr>"
    using runInventoryBatch_last [OF h1 ne p q] c by simp
  have h3: "fst (getDocumentFilesToProcess photoDrive None DOCUMENT_BATCH_SIZE) \<noteq> []
            \<and> snd (getDocumentFilesToProcess photoDrive None DOCUMENT_BATCH_SIZE) \<noteq> []"
    using photoDrive_page by simp
  from completion_decision [OF h1 h2, of photoDrive None] h1 h2 h3 show ?thesis by simp
qed

text \<open>
  C7, as the claim states it, fails: when the store refuses the statistics, the batch
  ends by the exception and the status is \<open>RUNNING\<close>, not \<open>ERROR\<close>.
\<close>

theorem failed_save_status_running:
  "fst (runInventoryBatch tinyQuotaHost pausedWorld) = Inl QuotaExceeded
   \<and> wStatus (snd (runInventoryBatch tinyQuotaHost pausedWorld)) = Some RUNNING
   \<and> wStatus (snd (runInventoryBatch tinyQuotaHost pausedWorld)) \<noteq> Some ERROR"
proof -
  have h1: "getFilesToProcess tinyQuotaHost (spContinuationToken (wProps pausedWorld)) BATCH_SIZE
              = ([plainFile ''a.txt'' 100 1, plainFile ''b.txt'' 50 1], [])"
    by (simp add: getFilesToProcess_def pausedWorld_def shouldIncludeFile_def plainFile_def
        BATCH_SIZE_def)
  have h2: "[plainFile ''a.txt'' 100 1, plainFile ''b.txt'' 50 1] \<noteq> []" by simp
  have h3: "hStringifyLength tinyQuotaHost st > hQuota tinyQuotaHost" for st
    by (simp add: tinyQuotaHost_def)
  from runInventoryBatch_save_fails [OF h1 h2 h3] show ?thesis by simp
qed

text \<open>
  C7, amended. When \<open>setProperty\<close> refuses the serialized statistics,
  \<open>runInventoryBatch\<close> does not catch the exception: the call ends by it, so the failure
  reaches the caller; the script properties with the previous statistics and token are
  as they were before the batch, and no final report is written. The status stays
  \<open>RUNNING\<close>: no batch, failed or not, sets the status \<open>ERROR\<close>.
\<close>

theorem failed_save_keeps_checkpoint:
  assumes "getFilesToProcess h (spContinuationToken (wProps w)) BATCH_SIZE = (files, iterator)"
    and "files \<noteq> []"
    and "hStringifyLength h (snd (processPage (hGetFullYear h) files
           (0, initializeStats (hNow h) (spInventoryStats (wProps w))))) > hQuota h"
  shows "fst (runInventoryBatch h w) = Inl QuotaExceeded
    \<and> wProps (snd (runInventoryBatch h w)) = wProps w
    \<and> wFinalReports (snd (runInventoryBatch h w)) = wFinalReports w
    \<and> wStatus (snd (runInventoryBatch h w)) = Some RUNNING
    \<and> wStatus (snd (runInventoryBatch h' w')) \<noteq> Some ERROR"
  using runInventoryBatch_save_fails [OF assms] runInventoryBatch_status [of h' w']
  by auto

theorem failed_save_keeps_checkpoint_witness:
  "getFilesToProcess tinyQuotaHost (spContinuationToken (wProps pausedWorld)) BATCH_SIZE
     = ([plainFile ''a.txt'' 100 1, plainFile ''b.txt'' 50 1], [])
   \<and> fst (runInventoryBatch tinyQuotaHost pausedWorld) = Inl QuotaExceeded
   \<and> wProps (snd (runInventoryBatch tinyQuotaHost pausedWorld)) = wProps pausedWorld
   \<and> wStatus (snd (runInventoryBatch tinyQuotaHost pausedWorld)) = Some RUNNING"
proof -
  have h1: "getFilesToProcess tinyQuotaHost (spContinuationToken (wProps pausedWorld)) BATCH_SIZE
              = ([plainFile ''a.txt'' 100 1, plainFile ''b.txt'' 50 1], [])"
    by (simp add: getFilesToProcess_def pausedWorld_def shouldIncludeFile_def plainFile_def
        BATCH_SIZE_def)
  have h2: "[plainFile ''a.txt'' 100 1, plainFile ''b.txt'' 50 1] \<noteq> []" by simp
  have h3: "hStringifyLength tinyQuotaHost st > hQuota tinyQuotaHost" for st
    by (simp add: tinyQuotaHost_def)
  from failed_save_keeps_checkpoint [OF h1 h2 h3] h1 show ?thesis by simp
qed

text \<open>
  C1. The claim asks for the same final statistics whether the crawl runs as one batch
  or as several with the statistics stored and parsed in between. In the code files
  inventory, \<open>main.py\<close> and \<open>parser.py\<close> of the repository \<open>src\<close> processed in one batch
  give no error and two files for their owner. In two batches the entry of \<open>src\<close> comes
  back from the store with \<open>languages\<close> a plain object, \<open>languages.add\<close> throws on
  \<open>parser.py\<close>, and the run ends with one error and one file for the owner.
\<close>

theorem code_batches_differ_from_one_pass:
  "csErrors (runCodeBatches plainYear 0 [[mainPy, parserPy]] None) = 0
   \<and> csByOwner (runCodeBatches plainYear 0 [[mainPy, parserPy]] None) ''ann@example.org'' = Some 2
   \<and> csErrors (runCodeBatches plainYear 0 [[mainPy], [parserPy]] None) = 1
   \<and> csByOwner (runCodeBatches plainYear 0 [[mainPy], [parserPy]] None) ''ann@example.org'' = Some 1
   \<and> runCodeBatches plainYear 0 [[mainPy], [parserPy]] None
       \<noteq> runCodeBatches plainYear 0 [[mainPy, parserPy]] None"
proof -
  have one: "csErrors (runCodeBatches plainYear 0 [[mainPy, parserPy]] None) = 0
      \<and> csByOwner (runCodeBatches plainYear 0 [[mainPy, parserPy]] None) ''ann@example.org'' = Some 2"
    by code_simp
  have two: "csErrors (runCodeBatches plainYear 0 [[mainPy], [parserPy]] None) = 1
      \<and> csByOwner (runCodeBatches plainYear 0 [[mainPy], [parserPy]] None) ''ann@example.org'' = Some 1"
    by code_simp
  have "runCodeBatches plainYear 0 [[mainPy], [parserPy]] None
          \<noteq> runCodeBatches plainYear 0 [[mainPy, parserPy]] None"
  proof
    assume "runCodeBatches plainYear 0 [[mainPy], [parserPy]] None
              = runCodeBatches plainYear 0 [[mainPy, parserPy]] None"
    then have "csErrors (runCodeBatches plainYear 0 [[mainPy], [parserPy]] None)
                 = csErrors (runCodeBatches plainYear 0 [[mainPy, parserPy]] None)"
      by simp
    with one two show False by simp
  qed
  with one two show ?thesis by simp
qed

end
